theory Spec2Isabelle
  imports Main "HOL-Library.Word"
begin

unbundle bit_operations_syntax

section \<open>Strings and errors\<close>

text \<open>
  Go strings are byte sequences; \<^typ>\<open>string\<close> is a list of 8-bit characters, and
  \<open>len(s)\<close> is \<^term>\<open>length s\<close>. A Go \<open>error\<close> is modelled by its message:
  \<open>None\<close> is \<open>nil\<close>, \<open>Some msg\<close> is an error whose \<open>Error()\<close> text is \<open>msg\<close>.
  \<open>fmt.Errorf\<close> with \<open>%s\<close>, \<open>%v\<close> and \<open>%w\<close> verbs on strings and errors is
  concatenation of the pieces.
\<close>

type_synonym error = "string option"

text \<open>\<open>strings.HasPrefix\<close>, \<open>strings.Contains\<close> and \<open>strings.Join\<close> of the Go library.\<close>

fun strings_HasPrefix :: "string \<Rightarrow> string \<Rightarrow> bool" where
  "strings_HasPrefix s [] = True"
| "strings_HasPrefix [] (p # ps) = False"
| "strings_HasPrefix (c # cs) (p # ps) = (c = p \<and> strings_HasPrefix cs ps)"

fun strings_Contains :: "string \<Rightarrow> string \<Rightarrow> bool" where
  "strings_Contains [] substr = (substr = [])"
| "strings_Contains (c # cs) substr =
     (strings_HasPrefix (c # cs) substr \<or> strings_Contains cs substr)"

fun strings_Join :: "string list \<Rightarrow> string \<Rightarrow> string" where
  "strings_Join [] sep = []"
| "strings_Join [e] sep = e"
| "strings_Join (e # f # es) sep = e @ sep @ strings_Join (f # es) sep"

section \<open>Security validation patterns\<close>

definition is_lower :: "char \<Rightarrow> bool" where
  "is_lower c = (97 \<le> (of_char c :: nat) \<and> (of_char c :: nat) \<le> 122)"

definition is_upper :: "char \<Rightarrow> bool" where
  "is_upper c = (65 \<le> (of_char c :: nat) \<and> (of_char c :: nat) \<le> 90)"

definition is_digit :: "char \<Rightarrow> bool" where
  "is_digit c = (48 \<le> (of_char c :: nat) \<and> (of_char c :: nat) \<le> 57)"

text \<open>The character class \<open>[a-zA-Z0-9._-]\<close>.\<close>

definition coord_char :: "char \<Rightarrow> bool" where
  "coord_char c = (is_lower c \<or> is_upper c \<or> is_digit c
     \<or> c = CHR ''.'' \<or> c = CHR ''_'' \<or> c = CHR ''-'')"

text \<open>The character class \<open>[a-zA-Z0-9_-]\<close>.\<close>

definition profile_char :: "char \<Rightarrow> bool" where
  "profile_char c = (is_lower c \<or> is_upper c \<or> is_digit c
     \<or> c = CHR ''_'' \<or> c = CHR ''-'')"

text \<open>
  \<open>mavenCoordinatePattern = ^[a-zA-Z0-9][a-zA-Z0-9._-]*$\<close>, as the recogniser of the
  whole string (in Go's syntax \<open>$\<close> without the \<open>m\<close> flag matches at the end of the text
  only). All classes are ASCII, so matching bytes and matching runes agree.
\<close>

fun mavenCoordinatePattern :: "string \<Rightarrow> bool" where
  "mavenCoordinatePattern [] = False"
| "mavenCoordinatePattern (c # cs) =
     ((is_lower c \<or> is_upper c \<or> is_digit c) \<and> list_all coord_char cs)"

text \<open>\<open>profilePattern = ^[a-zA-Z][a-zA-Z0-9_-]*$\<close>.\<close>

fun profilePattern :: "string \<Rightarrow> bool" where
  "profilePattern [] = False"
| "profilePattern (c # cs) = ((is_lower c \<or> is_upper c) \<and> list_all profile_char cs)"

section \<open>Identifier and profile validators\<close>

definition validateMavenCoordinate :: "string \<Rightarrow> string \<Rightarrow> error" where
  "validateMavenCoordinate coord fieldName =
     (if coord = [] then Some (fieldName @ '' cannot be empty'')
      else if length coord > 256 then Some (fieldName @ '' too long (max 256 characters)'')
      else if \<not> mavenCoordinatePattern coord
        then Some (''invalid '' @ fieldName @ '': contains disallowed characters'')
      else if strings_Contains coord ''..'' then Some (fieldName @ '' cannot contain '' @ [CHR 39] @ ''..'' @ [CHR 39])
      else None)"

definition validateProfile :: "string \<Rightarrow> error" where
  "validateProfile profile =
     (if profile = [] then Some ''profile name cannot be empty''
      else if length profile > 128 then Some ''profile name too long (max 128 characters)''
      else if \<not> profilePattern profile
        then Some ''invalid profile name: must be alphanumeric with dashes or underscores''
      else None)"

section \<open>Path validator\<close>

text \<open>
  \<open>path/filepath\<close> of the Go library on a Unix target: \<open>Separator\<close> is the slash, a
  path has no volume name, \<open>FromSlash\<close> is the identity and \<open>IsAbs\<close> tests for a leading
  slash. \<open>Clean\<close> follows the library's loop: \<open>out\<close> is the part of the buffer written
  so far (\<open>out.w\<close> is its length), \<open>dotdot\<close> the index where backtracking must stop, and
  the second argument of the loop is the unread rest \<open>path[r:]\<close> of the input.
\<close>

definition Separator :: char where
  "Separator = CHR ''/''"

definition os_IsPathSeparator :: "char \<Rightarrow> bool" where
  "os_IsPathSeparator c = (c = Separator)"

definition IsAbs :: "string \<Rightarrow> bool" where
  "IsAbs path = strings_HasPrefix path ''/''"

text \<open>The inner loop \<open>for out.w > dotdot && !IsPathSeparator(out.index(out.w)) { out.w-- }\<close>.\<close>

function backtrack :: "string \<Rightarrow> nat \<Rightarrow> nat \<Rightarrow> nat" where
  "backtrack out dotdot w =
     (if w > dotdot \<and> \<not> os_IsPathSeparator (out ! w) then backtrack out dotdot (w - 1) else w)"
  by pat_completeness auto
termination
  by (relation "measure (\<lambda>(out, dotdot, w). w)") auto

declare backtrack.simps [simp del]

function clean_loop :: "bool \<Rightarrow> string \<Rightarrow> string \<Rightarrow> nat \<Rightarrow> string" where
  "clean_loop rooted [] out dotdot = out"
| "clean_loop rooted (c # rest) out dotdot =
     (if os_IsPathSeparator c then clean_loop rooted rest out dotdot
      else if c = CHR ''.'' \<and> (rest = [] \<or> os_IsPathSeparator (hd rest))
        then clean_loop rooted rest out dotdot
      else if c = CHR ''.'' \<and> hd rest = CHR ''.''
              \<and> (tl rest = [] \<or> os_IsPathSeparator (hd (tl rest)))
        then (if length out > dotdot
                then clean_loop rooted (tl rest)
                       (take (backtrack out dotdot (length out - 1)) out) dotdot
              else if \<not> rooted
                then clean_loop rooted (tl rest)
                       ((if length out > 0 then out @ [Separator] else out) @ ''..'')
                       (length ((if length out > 0 then out @ [Separator] else out) @ ''..''))
              else clean_loop rooted (tl rest) out dotdot)
      else clean_loop rooted (dropWhile (\<lambda>x. \<not> os_IsPathSeparator x) rest)
             ((if rooted \<and> length out \<noteq> 1 \<or> \<not> rooted \<and> length out \<noteq> 0
                 then out @ [Separator] else out)
              @ c # takeWhile (\<lambda>x. \<not> os_IsPathSeparator x) rest)
             dotdot)"
  by pat_completeness auto
termination
  by (relation "measure (\<lambda>(rooted, path, out, dotdot). length path)")
     (auto intro: le_imp_less_Suc length_dropWhile_le)

definition Clean :: "string \<Rightarrow> string" where
  "Clean path =
     (if path = [] then ''.''
      else let rooted = os_IsPathSeparator (hd path);
               out = (if rooted then clean_loop True (tl path) [Separator] 1
                      else clean_loop False path [] 0)
           in if length out = 0 then ''.'' else out)"

definition validatePath :: "string \<Rightarrow> error" where
  "validatePath path =
     (if path = [] then None
      else let cleaned = Clean path
           in if IsAbs cleaned then Some ''absolute paths are not allowed''
              else if strings_HasPrefix cleaned ''..''
                      \<or> strings_Contains cleaned ([Separator] @ ''..'')
                then Some (''path traversal detected: cannot use '' @ [CHR 39] @ ''..''
                           @ [CHR 39] @ '' to escape working directory'')
              else None)"

section \<open>Private-address classifier\<close>

text \<open>
  \<open>net.IP\<close> and \<open>net.IPMask\<close> are byte slices (\<open>nil\<close> is the empty list); an
  \<open>IPNet\<close> is an address with its mask. The methods below are those of package \<open>net\<close>.
\<close>

type_synonym byte = "8 word"
type_synonym IP = "byte list"
type_synonym IPMask = "byte list"

record IPNet =
  IP :: IP
  Mask :: IPMask

definition IPv4len :: nat where
  "IPv4len = 4"

definition IPv6len :: nat where
  "IPv6len = 16"

definition IPv6loopback :: IP where
  "IPv6loopback = [0, 0, 0, 0, 0, 0, 0, 0, 0, 0, 0, 0, 0, 0, 0, 1]"

text \<open>\<open>To4\<close> returns \<open>nil\<close> (here \<open>None\<close>) when the address is not an IPv4 address.\<close>

definition To4 :: "IP \<Rightarrow> IP option" where
  "To4 ip =
     (if length ip = IPv4len then Some ip
      else if length ip = IPv6len \<and> list_all (\<lambda>b. b = 0) (take 10 ip)
              \<and> ip ! 10 = 0xff \<and> ip ! 11 = 0xff
        then Some (drop 12 ip)
      else None)"

definition networkNumberAndMask :: "IPNet \<Rightarrow> IP \<times> IPMask" where
  "networkNumberAndMask n =
     (let ip = (case To4 (IP n) of Some ip4 \<Rightarrow> ip4 | None \<Rightarrow> IP n);
          m = Mask n
      in if To4 (IP n) = None \<and> length ip \<noteq> IPv6len then ([], [])
         else if length m = IPv4len
           then (if length ip \<noteq> IPv4len then ([], []) else (ip, m))
         else if length m = IPv6len
           then (if length ip = IPv4len then (ip, drop 12 m) else (ip, m))
         else ([], []))"

definition IPNet_Contains :: "IPNet \<Rightarrow> IP \<Rightarrow> bool" where
  "IPNet_Contains n ip0 =
     (let (nn, m) = networkNumberAndMask n;
          ip = (case To4 ip0 of Some x \<Rightarrow> x | None \<Rightarrow> ip0);
          l = length ip
      in if l \<noteq> length nn then False
         else list_all (\<lambda>i. (nn ! i) AND (m ! i) = (ip ! i) AND (m ! i)) [0..<l])"

definition IsLoopback :: "IP \<Rightarrow> bool" where
  "IsLoopback ip = (case To4 ip of Some ip4 \<Rightarrow> ip4 ! 0 = 127 | None \<Rightarrow> ip = IPv6loopback)"

definition IsLinkLocalUnicast :: "IP \<Rightarrow> bool" where
  "IsLinkLocalUnicast ip =
     (case To4 ip of
        Some ip4 \<Rightarrow> ip4 ! 0 = 169 \<and> ip4 ! 1 = 254
      | None \<Rightarrow> length ip = IPv6len \<and> ip ! 0 = 0xfe \<and> (ip ! 1) AND 0xc0 = 0x80)"

definition IsLinkLocalMulticast :: "IP \<Rightarrow> bool" where
  "IsLinkLocalMulticast ip =
     (case To4 ip of
        Some ip4 \<Rightarrow> ip4 ! 0 = 224 \<and> ip4 ! 1 = 0 \<and> ip4 ! 2 = 0
      | None \<Rightarrow> length ip = IPv6len \<and> ip ! 0 = 0xff \<and> (ip ! 1) AND 0x0f = 0x02)"

definition IsPrivate :: "IP \<Rightarrow> bool" where
  "IsPrivate ip =
     (case To4 ip of
        Some ip4 \<Rightarrow> ip4 ! 0 = 10
                    \<or> (ip4 ! 0 = 172 \<and> (ip4 ! 1) AND 0xf0 = 16)
                    \<or> (ip4 ! 0 = 192 \<and> ip4 ! 1 = 168)
      | None \<Rightarrow> length ip = IPv6len \<and> (ip ! 0) AND 0xfe = 0xfc)"

subsection \<open>Parsing the CIDR literals\<close>

text \<open>
  \<open>net.ParseCIDR\<close> on the notations the source uses: a dotted quad of decimal octets
  without leading zeros, or groups of one to four hexadecimal digits separated by
  colons with at most one \<open>::\<close>, followed by a slash and the decimal prefix length.
  Zones and a dotted quad embedded in an IPv6 address are not modelled (the parser
  returns \<open>None\<close> for them); no literal of the source uses either.
\<close>

fun split_on :: "char \<Rightarrow> string \<Rightarrow> string list" where
  "split_on sep [] = [[]]"
| "split_on sep (c # cs) =
     (if c = sep then [] # split_on sep cs
      else (case split_on sep cs of f # fs \<Rightarrow> (c # f) # fs | [] \<Rightarrow> [[c]]))"

definition digit_val :: "char \<Rightarrow> nat" where
  "digit_val c = of_char c - 48"

definition is_hex :: "char \<Rightarrow> bool" where
  "is_hex c = (is_digit c \<or> (97 \<le> (of_char c :: nat) \<and> (of_char c :: nat) \<le> 102)
                \<or> (65 \<le> (of_char c :: nat) \<and> (of_char c :: nat) \<le> 70))"

definition hex_val :: "char \<Rightarrow> nat" where
  "hex_val c = (if is_digit c then of_char c - 48
                else if 97 \<le> (of_char c :: nat) then of_char c - 87
                else of_char c - 55)"

text \<open>\<open>dtoi\<close>: the leading decimal digits of a string, how many there are, and success.\<close>

definition big :: nat where
  "big = 0xFFFFFF"

fun dtoi_loop :: "string \<Rightarrow> nat \<Rightarrow> nat \<Rightarrow> nat \<times> nat \<times> bool" where
  "dtoi_loop [] n i = (if i = 0 then (0, 0, False) else (n, i, True))"
| "dtoi_loop (c # cs) n i =
     (if is_digit c
        then (if n * 10 + digit_val c \<ge> big then (big, i, False)
              else dtoi_loop cs (n * 10 + digit_val c) (i + 1))
      else if i = 0 then (0, 0, False) else (n, i, True))"

definition dtoi :: "string \<Rightarrow> nat \<times> nat \<times> bool" where
  "dtoi s = dtoi_loop s 0 0"

definition parse_octet :: "string \<Rightarrow> byte option" where
  "parse_octet f =
     (if f = [] \<or> \<not> list_all is_digit f \<or> length f > 3 then None
      else if length f > 1 \<and> hd f = CHR ''0'' then None
      else if foldl (\<lambda>n c. n * 10 + digit_val c) 0 f > 255 then None
      else Some (word_of_nat (foldl (\<lambda>n c. n * 10 + digit_val c) 0 f)))"

definition parseIPv4 :: "string \<Rightarrow> IP option" where
  "parseIPv4 s =
     (let fields = split_on (CHR ''.'') s
      in if length fields \<noteq> 4 then None else those (map parse_octet fields))"

definition parse_group :: "string \<Rightarrow> IP option" where
  "parse_group f =
     (if f = [] \<or> \<not> list_all is_hex f \<or> length f > 4 then None
      else let v = foldl (\<lambda>n c. n * 16 + hex_val c) 0 f
           in Some [word_of_nat (v div 256), word_of_nat (v mod 256)])"

definition parse_groups :: "string \<Rightarrow> IP list option" where
  "parse_groups t = (if t = [] then Some [] else those (map parse_group (split_on (CHR '':'') t)))"

fun find_ellipsis :: "string \<Rightarrow> string \<Rightarrow> (string \<times> string) option" where
  "find_ellipsis acc (c # d # rest) =
     (if c = CHR '':'' \<and> d = CHR '':'' then Some (rev acc, rest)
      else find_ellipsis (c # acc) (d # rest))"
| "find_ellipsis acc [c] = None"
| "find_ellipsis acc [] = None"

definition parseIPv6 :: "string \<Rightarrow> IP option" where
  "parseIPv6 s =
     (case find_ellipsis [] s of
        None \<Rightarrow>
          (case parse_groups s of
             None \<Rightarrow> None
           | Some gs \<Rightarrow> if length gs = 8 then Some (concat gs) else None)
      | Some (left, right) \<Rightarrow>
          (case (parse_groups left, parse_groups right) of
             (Some ls, Some rs) \<Rightarrow>
               if length ls + length rs \<le> 7
                 then Some (concat ls @ replicate (16 - 2 * (length ls + length rs)) 0 @ concat rs)
               else None
           | _ \<Rightarrow> None))"

text \<open>\<open>netip.ParseAddr\<close> dispatches on the first dot, colon or percent sign of the text.\<close>

fun ParseAddr_scan :: "string \<Rightarrow> string \<Rightarrow> IP option" where
  "ParseAddr_scan s [] = None"
| "ParseAddr_scan s (c # cs) =
     (if c = CHR ''.'' then parseIPv4 s
      else if c = CHR '':'' then parseIPv6 s
      else if c = CHR ''%'' then None
      else ParseAddr_scan s cs)"

definition ParseAddr :: "string \<Rightarrow> IP option" where
  "ParseAddr s = ParseAddr_scan s s"

fun CIDRMask_loop :: "nat \<Rightarrow> nat \<Rightarrow> IPMask" where
  "CIDRMask_loop 0 n = []"
| "CIDRMask_loop (Suc l) n =
     (if n \<ge> 8 then 0xff # CIDRMask_loop l (n - 8)
      else (NOT (drop_bit n (0xff :: byte))) # CIDRMask_loop l 0)"

definition CIDRMask :: "nat \<Rightarrow> nat \<Rightarrow> IPMask" where
  "CIDRMask ones bits =
     (if bits \<noteq> 8 * IPv4len \<and> bits \<noteq> 8 * IPv6len then []
      else if ones > bits then []
      else CIDRMask_loop (bits div 8) ones)"

definition ParseCIDR :: "string \<Rightarrow> IPNet option" where
  "ParseCIDR s =
     (if CHR ''/'' \<notin> set s then None
      else let addr = takeWhile (\<lambda>c. c \<noteq> CHR ''/'') s;
               mask = drop 1 (dropWhile (\<lambda>c. c \<noteq> CHR ''/'') s)
           in case ParseAddr addr of
                None \<Rightarrow> None
              | Some ipAddr \<Rightarrow>
                  (case dtoi mask of
                     (n, i, ok) \<Rightarrow>
                       if \<not> ok \<or> i \<noteq> length mask \<or> n > 8 * length ipAddr then None
                       else let m = CIDRMask n (8 * length ipAddr)
                            in Some \<lparr>IP = map2 (AND) ipAddr m, Mask = m\<rparr>))"

subsection \<open>isPrivateIP\<close>

definition privateRanges :: "string list" where
  "privateRanges =
     [''10.0.0.0/8'', ''172.16.0.0/12'', ''192.168.0.0/16'', ''127.0.0.0/8'',
      ''169.254.0.0/16'', ''0.0.0.0/8'']"

definition cloudMetadata :: "string list" where
  "cloudMetadata = [''169.254.169.254/32'', ''fd00:ec2::254/128'']"

text \<open>The loop over \<open>allRanges\<close>: a literal that does not parse is skipped.\<close>

fun ranges_loop :: "string list \<Rightarrow> IP \<Rightarrow> bool" where
  "ranges_loop [] ip = False"
| "ranges_loop (cidr # rest) ip =
     (case ParseCIDR cidr of
        None \<Rightarrow> ranges_loop rest ip
      | Some block \<Rightarrow> if IPNet_Contains block ip then True else ranges_loop rest ip)"

definition isPrivateIP :: "IP \<Rightarrow> bool" where
  "isPrivateIP ip =
     (let allRanges = privateRanges @ cloudMetadata
      in if ranges_loop allRanges ip then True
         else if IsLoopback ip \<or> IsLinkLocalUnicast ip \<or> IsLinkLocalMulticast ip \<or> IsPrivate ip
           then True
         else False)"

section \<open>Repository URL guard\<close>

text \<open>
  URL parsing, name resolution and the process environment belong to the platform the
  plugin runs on. They are taken as parameters: \<open>url_Parse\<close> stands for \<open>url.Parse\<close>
  followed by reading the fields the plugin uses (\<open>Scheme\<close>, and \<open>Hostname()\<close>),
  \<open>net_LookupIP\<close> for \<open>net.LookupIP\<close>, and \<open>os_Getenv\<close> for \<open>os.Getenv\<close>. A failing
  call returns \<open>Inl\<close> with the text of its error. \<open>sdk_ParseBool\<close> is the plugin
  SDK's reading of a string value as a boolean, given the string and the default.
\<close>

record URL =
  Scheme :: string
  Hostname :: string

record platform =
  url_Parse :: "string \<Rightarrow> string + URL"
  net_LookupIP :: "string \<Rightarrow> string + IP list"
  os_Getenv :: "string \<Rightarrow> string"
  sdk_ParseBool :: "string \<Rightarrow> bool \<Rightarrow> bool"

text \<open>The loop over the resolved addresses.\<close>

fun ips_loop :: "IP list \<Rightarrow> error" where
  "ips_loop [] = None"
| "ips_loop (ip # ips) =
     (if isPrivateIP ip then Some ''URLs pointing to private networks are not allowed''
      else ips_loop ips)"

definition validateRepositoryURL :: "platform \<Rightarrow> string \<Rightarrow> error" where
  "validateRepositoryURL pf rawURL =
     (if rawURL = [] then None
      else case url_Parse pf rawURL of
             Inl err \<Rightarrow> Some (''invalid URL: '' @ err)
           | Inr parsedURL \<Rightarrow>
               (let host = Hostname parsedURL;
                    isLocalhost = (host = ''localhost'' \<or> host = ''127.0.0.1'' \<or> host = ''::1'')
                in if Scheme parsedURL \<noteq> ''https'' \<and> \<not> isLocalhost
                     then Some (''only HTTPS URLs are allowed (got '' @ Scheme parsedURL @ '')'')
                   else if isLocalhost then None
                   else case net_LookupIP pf host of
                          Inl err \<Rightarrow> Some (''failed to resolve hostname: '' @ err)
                        | Inr ips \<Rightarrow> ips_loop ips))"

section \<open>Command builder\<close>

record Config =
  GroupID :: string
  ArtifactID :: string
  PomPath :: string
  Username :: string
  Password :: string
  Repository :: string
  SkipTests :: bool
  Settings :: string
  Profiles :: "string list"

text \<open>The loop validating every profile; the first failure ends \<open>buildMavenCommand\<close>.\<close>

fun profiles_loop :: "string list \<Rightarrow> error" where
  "profiles_loop [] = None"
| "profiles_loop (profile # rest) =
     (case validateProfile profile of
        Some err \<Rightarrow> Some (''invalid profile '' @ [CHR 39] @ profile @ [CHR 39] @ '': '' @ err)
      | None \<Rightarrow> profiles_loop rest)"

text \<open>The last step of \<open>buildMavenCommand\<close>, from \<open>if len(cfg.Profiles) > 0\<close> on.\<close>

definition add_profiles :: "Config \<Rightarrow> string list \<Rightarrow> string + string list" where
  "add_profiles cfg args =
     (if length (Profiles cfg) > 0
        then (case profiles_loop (Profiles cfg) of
                Some err \<Rightarrow> Inl err
              | None \<Rightarrow> Inr (args @ [''-P'', strings_Join (Profiles cfg) '','']))
      else Inr args)"

definition buildMavenCommand :: "Config \<Rightarrow> string + string list" where
  "buildMavenCommand cfg =
     (let args = [''deploy''];
          pomPath = (if PomPath cfg = [] then ''pom.xml'' else PomPath cfg)
      in case validatePath pomPath of
           Some err \<Rightarrow> Inl (''invalid pom_path: '' @ err)
         | None \<Rightarrow>
             (let args = args @ [''-f'', pomPath];
                  args = (if SkipTests cfg then args @ [''-DskipTests''] else args)
              in if Settings cfg \<noteq> []
                   then (case validatePath (Settings cfg) of
                           Some err \<Rightarrow> Inl (''invalid settings path: '' @ err)
                         | None \<Rightarrow> add_profiles cfg (args @ [''-s'', Settings cfg]))
                 else add_profiles cfg args))"

section \<open>Deploy orchestrator\<close>

text \<open>
  A value of Go's \<open>any\<close> as it occurs in configuration maps and outputs. The executor
  is the \<open>CommandExecutor\<close> of the plugin (the one \<open>getExecutor\<close> returns): given the
  command name and its arguments it yields the combined output and an error. Every call
  of \<open>Run\<close> is recorded, in order, in a log that the functions pass along.
\<close>

datatype any = AnyString string | AnyBool bool | AnyStrings "string list"

type_synonym CommandExecutor = "string \<Rightarrow> string list \<Rightarrow> string \<times> error"
type_synonym process_log = "(string \<times> string list) list"

definition executor_Run ::
  "CommandExecutor \<Rightarrow> string \<Rightarrow> string list \<Rightarrow> process_log \<Rightarrow> (string \<times> error) \<times> process_log" where
  "executor_Run executor name args log = (executor name args, log @ [(name, args)])"

record ReleaseContext =
  Version :: string

record ExecuteResponse =
  Success :: bool
  Message :: string
  Error :: string
  Outputs :: "string \<rightharpoonup> any"

record ExecuteRequest =
  Hook :: string
  Config :: "string \<rightharpoonup> any"
  Context :: ReleaseContext
  DryRun :: bool

definition failure :: "string \<Rightarrow> ExecuteResponse" where
  "failure err = \<lparr>Success = False, Message = [], Error = err, Outputs = Map.empty\<rparr>"

definition deploy ::
  "platform \<Rightarrow> CommandExecutor \<Rightarrow> Config \<Rightarrow> ReleaseContext \<Rightarrow> bool \<Rightarrow> process_log
     \<Rightarrow> ExecuteResponse \<times> process_log" where
  "deploy pf executor cfg releaseCtx dryRun log =
     (case validateMavenCoordinate (GroupID cfg) ''group_id'' of
        Some err \<Rightarrow> (failure err, log)
      | None \<Rightarrow>
     (case validateMavenCoordinate (ArtifactID cfg) ''artifact_id'' of
        Some err \<Rightarrow> (failure err, log)
      | None \<Rightarrow>
     (case validateRepositoryURL pf (Repository cfg) of
        Some err \<Rightarrow> (failure (''invalid repository URL: '' @ err), log)
      | None \<Rightarrow>
     (case buildMavenCommand cfg of
        Inl err \<Rightarrow> (failure err, log)
      | Inr args \<Rightarrow>
          if dryRun
            then (\<lparr>Success = True, Message = ''Would deploy Maven artifact'', Error = [],
                   Outputs = [''group_id'' \<mapsto> AnyString (GroupID cfg),
                              ''artifact_id'' \<mapsto> AnyString (ArtifactID cfg),
                              ''version'' \<mapsto> AnyString (Version releaseCtx),
                              ''pom_path'' \<mapsto> AnyString (PomPath cfg),
                              ''command'' \<mapsto> AnyString (''mvn '' @ strings_Join args '' ''),
                              ''skip_tests'' \<mapsto> AnyBool (SkipTests cfg),
                              ''profiles'' \<mapsto> AnyStrings (Profiles cfg)]\<rparr>, log)
          else (case executor_Run executor ''mvn'' args log of
                  ((output, Some err), log') \<Rightarrow>
                    (failure (''Maven deploy failed: '' @ err @ [CHR 10] @ ''Output: '' @ output),
                     log')
                | ((output, None), log') \<Rightarrow>
                    (\<lparr>Success = True,
                      Message = ''Deployed Maven artifact '' @ GroupID cfg @ '':''
                                @ ArtifactID cfg @ '':'' @ Version releaseCtx,
                      Error = [],
                      Outputs = [''group_id'' \<mapsto> AnyString (GroupID cfg),
                                 ''artifact_id'' \<mapsto> AnyString (ArtifactID cfg),
                                 ''version'' \<mapsto> AnyString (Version releaseCtx)]\<rparr>, log'))))))"

section \<open>Configuration parsing and the plugin's entry points\<close>

text \<open>
  The configuration parser and the validation builder come from the plugin SDK (package
  \<open>helpers\<close>), which is not part of this repository. They are modelled by what the
  repository's tests fix: a key holding a non-empty string yields that string, otherwise
  the named environment variable when it is set, otherwise the default; a boolean value
  yields itself, a string value is read as a boolean the way the SDK does (a parameter
  of the model), anything else yields the default; a validation response is valid iff no
  error was added, and keeps the errors in the order added.
\<close>

record ConfigParser =
  raw :: "string \<rightharpoonup> any"
  getenv :: "string \<Rightarrow> string"
  parse_bool :: "string \<Rightarrow> bool \<Rightarrow> bool"

definition NewConfigParser :: "platform \<Rightarrow> (string \<rightharpoonup> any) \<Rightarrow> ConfigParser" where
  "NewConfigParser pf config =
     \<lparr>raw = config, getenv = os_Getenv pf, parse_bool = sdk_ParseBool pf\<rparr>"

definition GetString :: "ConfigParser \<Rightarrow> string \<Rightarrow> string \<Rightarrow> string \<Rightarrow> string" where
  "GetString parser key envVar defaultVal =
     (case raw parser key of
        Some (AnyString v) \<Rightarrow>
          if v \<noteq> [] then v
          else if envVar \<noteq> [] \<and> getenv parser envVar \<noteq> [] then getenv parser envVar
          else defaultVal
      | _ \<Rightarrow> if envVar \<noteq> [] \<and> getenv parser envVar \<noteq> [] then getenv parser envVar
             else defaultVal)"

definition GetBool :: "ConfigParser \<Rightarrow> string \<Rightarrow> bool \<Rightarrow> bool" where
  "GetBool parser key defaultVal =
     (case raw parser key of
        Some (AnyBool b) \<Rightarrow> b
      | Some (AnyString v) \<Rightarrow> parse_bool parser v defaultVal
      | _ \<Rightarrow> defaultVal)"

definition GetStringSlice :: "ConfigParser \<Rightarrow> string \<Rightarrow> string list \<Rightarrow> string list" where
  "GetStringSlice parser key defaultVal =
     (case raw parser key of Some (AnyStrings vs) \<Rightarrow> vs | _ \<Rightarrow> defaultVal)"

record ValidationError =
  Field :: string
  Msg :: string

type_synonym ValidationBuilder = "ValidationError list"

record ValidateResponse =
  Valid :: bool
  Errors :: "ValidationError list"

definition NewValidationBuilder :: ValidationBuilder where
  "NewValidationBuilder = []"

definition AddError :: "ValidationBuilder \<Rightarrow> string \<Rightarrow> string \<Rightarrow> ValidationBuilder" where
  "AddError vb field message = vb @ [\<lparr>Field = field, Msg = message\<rparr>]"

definition Build :: "ValidationBuilder \<Rightarrow> ValidateResponse" where
  "Build vb = \<lparr>Valid = (length vb = 0), Errors = vb\<rparr>"

text \<open>The name of the post-publish hook in the SDK.\<close>

definition HookPostPublish :: string where
  "HookPostPublish = ''post-publish''"

definition parseConfig :: "platform \<Rightarrow> (string \<rightharpoonup> any) \<Rightarrow> Config" where
  "parseConfig pf rawConfig =
     (let parser = NewConfigParser pf rawConfig;
          pomPath = GetString parser ''pom_path'' [] [];
          pomPath = (if pomPath = [] then ''pom.xml'' else pomPath)
      in \<lparr>GroupID = GetString parser ''group_id'' [] [],
          ArtifactID = GetString parser ''artifact_id'' [] [],
          PomPath = pomPath,
          Username = GetString parser ''username'' ''MAVEN_USERNAME'' [],
          Password = GetString parser ''password'' ''MAVEN_PASSWORD'' [],
          Repository = GetString parser ''repository'' [] [],
          SkipTests = GetBool parser ''skip_tests'' False,
          Settings = GetString parser ''settings'' [] [],
          Profiles = GetStringSlice parser ''profiles'' []\<rparr>)"

definition Execute ::
  "platform \<Rightarrow> CommandExecutor \<Rightarrow> ExecuteRequest \<Rightarrow> process_log
     \<Rightarrow> ExecuteResponse \<times> process_log" where
  "Execute pf executor req log =
     (let cfg = parseConfig pf (Config req)
      in if Hook req = HookPostPublish
           then deploy pf executor cfg (Context req) (DryRun req) log
         else (\<lparr>Success = True, Message = ''Hook '' @ Hook req @ '' not handled'',
                Error = [], Outputs = Map.empty\<rparr>, log))"

text \<open>The loop of \<open>Validate\<close> over the profiles: every failing element adds an error.\<close>

fun validate_profiles :: "ValidationBuilder \<Rightarrow> string list \<Rightarrow> ValidationBuilder" where
  "validate_profiles vb [] = vb"
| "validate_profiles vb (profile # rest) =
     (case validateProfile profile of
        Some err \<Rightarrow>
          validate_profiles
            (AddError vb ''profiles''
               (''invalid profile '' @ [CHR 39] @ profile @ [CHR 39] @ '': '' @ err)) rest
      | None \<Rightarrow> validate_profiles vb rest)"

definition Validate :: "platform \<Rightarrow> (string \<rightharpoonup> any) \<Rightarrow> ValidateResponse" where
  "Validate pf config =
     (let vb = NewValidationBuilder;
          parser = NewConfigParser pf config;
          groupID = GetString parser ''group_id'' [] [];
          vb = (if groupID = [] then AddError vb ''group_id'' ''Maven group ID is required''
                else case validateMavenCoordinate groupID ''group_id'' of
                       Some err \<Rightarrow> AddError vb ''group_id'' err
                     | None \<Rightarrow> vb);
          artifactID = GetString parser ''artifact_id'' [] [];
          vb = (if artifactID = []
                  then AddError vb ''artifact_id'' ''Maven artifact ID is required''
                else case validateMavenCoordinate artifactID ''artifact_id'' of
                       Some err \<Rightarrow> AddError vb ''artifact_id'' err
                     | None \<Rightarrow> vb);
          pomPath = GetString parser ''pom_path'' [] ''pom.xml'';
          vb = (case validatePath pomPath of
                  Some err \<Rightarrow> AddError vb ''pom_path'' err
                | None \<Rightarrow> vb);
          repository = GetString parser ''repository'' [] [];
          vb = (if repository \<noteq> []
                  then (case validateRepositoryURL pf repository of
                          Some err \<Rightarrow> AddError vb ''repository'' err
                        | None \<Rightarrow> vb)
                else vb);
          settings = GetString parser ''settings'' [] [];
          vb = (if settings \<noteq> []
                  then (case validatePath settings of
                          Some err \<Rightarrow> AddError vb ''settings'' err
                        | None \<Rightarrow> vb)
                else vb);
          profiles = GetStringSlice parser ''profiles'' [];
          vb = validate_profiles vb profiles
      in Build vb)"

section \<open>Notions used to state the properties\<close>

text \<open>
  The grammars in the words of the specification: the first character alphanumeric
  (alphabetic for a profile), every later one alphanumeric, dash or underscore (or, for
  a coordinate, a dot).
\<close>

definition alphanumeric :: "char \<Rightarrow> bool" where
  "alphanumeric c = (is_lower c \<or> is_upper c \<or> is_digit c)"

definition coordinate_grammar :: "string \<Rightarrow> bool" where
  "coordinate_grammar s =
     (s \<noteq> [] \<and> alphanumeric (hd s)
      \<and> (\<forall>c \<in> set (tl s). alphanumeric c \<or> c = CHR ''.'' \<or> c = CHR ''-'' \<or> c = CHR ''_''))"

definition profile_grammar :: "string \<Rightarrow> bool" where
  "profile_grammar s =
     (s \<noteq> [] \<and> (is_lower (hd s) \<or> is_upper (hd s))
      \<and> (\<forall>c \<in> set (tl s). alphanumeric c \<or> c = CHR ''-'' \<or> c = CHR ''_''))"

text \<open>
  The whitespace characters of ASCII: space, tab, line feed, vertical tab, form feed
  and carriage return. Every other whitespace character of Unicode is encoded in UTF-8
  with bytes outside ASCII only.
\<close>

definition whitespace :: "char \<Rightarrow> bool" where
  "whitespace c =
     (c = CHR '' '' \<or> c = CHR 9 \<or> c = CHR 10 \<or> c = CHR 11 \<or> c = CHR 12 \<or> c = CHR 13)"

definition non_ascii :: "char \<Rightarrow> bool" where
  "non_ascii c = (128 \<le> (of_char c :: nat))"

text \<open>
  A string with a semicolon, the substring \<open>$(\<close>, a backtick, or a whitespace
  character (of ASCII, or one that brings bytes outside ASCII).
\<close>

definition hostile :: "string \<Rightarrow> bool" where
  "hostile s = (CHR '';'' \<in> set s \<or> strings_Contains s ''$('' \<or> CHR 96 \<in> set s
                \<or> (\<exists>c \<in> set s. whitespace c \<or> non_ascii c))"

text \<open>
  The segments of a path are the pieces between separators. A canonical path begins
  with a parent-directory segment when it is \<open>..\<close> or starts with \<open>../\<close>, and
  contains one bounded by separators when \<open>/../\<close> occurs in it.
\<close>

definition segments :: "string \<Rightarrow> string list" where
  "segments p = split_on Separator p"

definition parent_segment_at_start :: "string \<Rightarrow> bool" where
  "parent_segment_at_start p = (p = ''..'' \<or> strings_HasPrefix p (''..'' @ [Separator]))"

definition parent_segment_between_separators :: "string \<Rightarrow> bool" where
  "parent_segment_between_separators p =
     strings_Contains p ([Separator] @ ''..'' @ [Separator])"

definition traversal_error :: string where
  "traversal_error = ''path traversal detected: cannot use '' @ [CHR 39] @ ''..''
                      @ [CHR 39] @ '' to escape working directory''"

text \<open>
  The guards of the loop of \<open>Clean\<close> for a \<open>.\<close> element and for a \<open>..\<close> element, and
  the invariant of the loop on a rooted path: the output starts with the separator and
  has no parent-directory segment.
\<close>

abbreviation dot_elem :: "char \<Rightarrow> string \<Rightarrow> bool" where
  "dot_elem c rest \<equiv> c = CHR ''.'' \<and> (rest = [] \<or> os_IsPathSeparator (hd rest))"

abbreviation dotdot_elem :: "char \<Rightarrow> string \<Rightarrow> bool" where
  "dotdot_elem c rest \<equiv>
     c = CHR ''.'' \<and> hd rest = CHR ''.'' \<and> (tl rest = [] \<or> os_IsPathSeparator (hd (tl rest)))"

definition rooted_inv :: "string \<Rightarrow> bool" where
  "rooted_inv out = (out \<noteq> [] \<and> hd out = Separator \<and> ''..'' \<notin> set (segments out))"

text \<open>
  An IPv4 address \<open>a.b.c.d\<close> as a \<open>net.IP\<close>: its four bytes, or the sixteen bytes of
  the IPv4-mapped form that \<open>net.ParseIP\<close> and the resolver produce. \<open>metadata_v6\<close> is
  the address fd00:ec2::254.
\<close>

definition is_ipv4 :: "IP \<Rightarrow> byte \<Rightarrow> byte \<Rightarrow> byte \<Rightarrow> byte \<Rightarrow> bool" where
  "is_ipv4 ip a b c d =
     (ip = [a, b, c, d] \<or> ip = [0, 0, 0, 0, 0, 0, 0, 0, 0, 0, 0xff, 0xff, a, b, c, d])"

definition metadata_v6 :: IP where
  "metadata_v6 = [0xfd, 0x00, 0x0e, 0xc2, 0, 0, 0, 0, 0, 0, 0, 0, 0, 0, 0x02, 0x54]"

text \<open>
  The hosts the URL guard treats as local, its two error texts, and a small platform
  used to run the guard on concrete URLs.
\<close>

definition isLocalhost :: "string \<Rightarrow> bool" where
  "isLocalhost host = (host = ''localhost'' \<or> host = ''127.0.0.1'' \<or> host = ''::1'')"

definition https_error :: "string \<Rightarrow> string" where
  "https_error scheme = ''only HTTPS URLs are allowed (got '' @ scheme @ '')''"

definition private_error :: string where
  "private_error = ''URLs pointing to private networks are not allowed''"

definition example_platform :: platform where
  "example_platform =
     \<lparr>url_Parse = (\<lambda>s.
        if s = ''http://localhost:8081/x'' then Inr \<lparr>Scheme = ''http'', Hostname = ''localhost''\<rparr>
        else if s = ''http://evil.example.com''
          then Inr \<lparr>Scheme = ''http'', Hostname = ''evil.example.com''\<rparr>
        else if s = ''https://metadata.example.com''
          then Inr \<lparr>Scheme = ''https'', Hostname = ''metadata.example.com''\<rparr>
        else if s = ''https://repo.example.com''
          then Inr \<lparr>Scheme = ''https'', Hostname = ''repo.example.com''\<rparr>
        else if s = ''https://nowhere.invalid''
          then Inr \<lparr>Scheme = ''https'', Hostname = ''nowhere.invalid''\<rparr>
        else Inl ''parse error''),
      net_LookupIP = (\<lambda>h.
        if h = ''metadata.example.com'' then Inr [[93, 184, 216, 34], [169, 254, 169, 254]]
        else if h = ''repo.example.com'' then Inr [[93, 184, 216, 34]]
        else Inl ''no such host''),
      os_Getenv = (\<lambda>v. []),
      sdk_ParseBool = (\<lambda>v d. if v = ''true'' then True else if v = ''false'' then False else d)\<rparr>"

text \<open>
  The pom path \<open>buildMavenCommand\<close> uses (\<open>pom.xml\<close> when the field is empty), and a
  configuration to run the builder and the orchestrator on.
\<close>

definition effective_pom :: "Config \<Rightarrow> string" where
  "effective_pom cfg = (if PomPath cfg = [] then ''pom.xml'' else PomPath cfg)"

definition example_config :: Config where
  "example_config =
     \<lparr>GroupID = ''com.example'', ArtifactID = ''my-app'', PomPath = ''pom.xml'',
      Username = [], Password = [], Repository = [], SkipTests = False, Settings = [],
      Profiles = []\<rparr>"

text \<open>
  A configuration passes validation when the four checks of \<open>deploy\<close> succeed. The
  example executor always succeeds; the example request is the one of the repository's
  test of a real run.
\<close>

definition passes_validation :: "platform \<Rightarrow> Config \<Rightarrow> bool" where
  "passes_validation pf cfg =
     (validateMavenCoordinate (GroupID cfg) ''group_id'' = None
      \<and> validateMavenCoordinate (ArtifactID cfg) ''artifact_id'' = None
      \<and> validateRepositoryURL pf (Repository cfg) = None
      \<and> (case buildMavenCommand cfg of Inr args \<Rightarrow> True | Inl err \<Rightarrow> False))"

text \<open>
  The six validators \<open>deploy\<close> relies on, directly or through \<open>buildMavenCommand\<close>,
  all accept the configuration.
\<close>

definition all_validators_pass :: "platform \<Rightarrow> Config \<Rightarrow> bool" where
  "all_validators_pass pf cfg =
     (validateMavenCoordinate (GroupID cfg) ''group_id'' = None
      \<and> validateMavenCoordinate (ArtifactID cfg) ''artifact_id'' = None
      \<and> validateRepositoryURL pf (Repository cfg) = None
      \<and> validatePath (effective_pom cfg) = None
      \<and> validatePath (Settings cfg) = None
      \<and> list_all (\<lambda>p. validateProfile p = None) (Profiles cfg))"

definition example_executor :: CommandExecutor where
  "example_executor name args = (''BUILD SUCCESS'', None)"

definition example_request :: ExecuteRequest where
  "example_request =
     \<lparr>Hook = HookPostPublish,
      Config = [''group_id'' \<mapsto> AnyString ''com.example'', ''artifact_id'' \<mapsto> AnyString ''my-app''],
      Context = \<lparr>Version = ''v1.0.0''\<rparr>,
      DryRun = False\<rparr>"

text \<open>
  Notions for the validation response: whether it has an error for a field, the error
  reported for a profile, the errors one field contributes, and a configuration map with
  several invalid fields.
\<close>

definition has_error :: "ValidationError list \<Rightarrow> string \<Rightarrow> bool" where
  "has_error errs field = list_ex (\<lambda>e. Field e = field) errs"

definition profile_error :: "string \<Rightarrow> string \<Rightarrow> ValidationError" where
  "profile_error profile err =
     \<lparr>Field = ''profiles'',
      Msg = ''invalid profile '' @ [CHR 39] @ profile @ [CHR 39] @ '': '' @ err\<rparr>"

definition failures :: "error \<Rightarrow> nat" where
  "failures r = (case r of Some err \<Rightarrow> 1 | None \<Rightarrow> 0)"

definition field_errors :: "string \<Rightarrow> error \<Rightarrow> ValidationError list" where
  "field_errors field r = (case r of Some err \<Rightarrow> [\<lparr>Field = field, Msg = err\<rparr>] | None \<Rightarrow> [])"

definition required_errors :: "string \<Rightarrow> string \<Rightarrow> string \<Rightarrow> ValidationError list" where
  "required_errors field message v =
     (if v = [] then [\<lparr>Field = field, Msg = message\<rparr>]
      else field_errors field (validateMavenCoordinate v field))"

definition profiles_errors :: "string list \<Rightarrow> ValidationError list" where
  "profiles_errors ps =
     concat (map (\<lambda>p. case validateProfile p of
                         Some err \<Rightarrow> [profile_error p err] | None \<Rightarrow> []) ps)"

definition example_bad_config :: "string \<rightharpoonup> any" where
  "example_bad_config =
     [''group_id'' \<mapsto> AnyString ''com.example; rm -rf /'',
      ''pom_path'' \<mapsto> AnyString ''../../../etc/passwd'',
      ''profiles'' \<mapsto> AnyStrings [''release'', ''invalid profile with spaces'']]"

section \<open>Facts about the string functions and the patterns\<close>

lemmas char_defs = alphanumeric_def is_lower_def is_upper_def is_digit_def

lemma strings_HasPrefix_iff: "strings_HasPrefix s p = (\<exists>t. s = p @ t)"
  by (induction s p rule: strings_HasPrefix.induct) auto

lemma strings_Contains_iff: "strings_Contains s sub = (\<exists>a b. s = a @ sub @ b)"
proof (induction s)
  case Nil
  then show ?case by simp
next
  case (Cons c cs)
  show ?case
  proof
    assume "strings_Contains (c # cs) sub"
    then consider "strings_HasPrefix (c # cs) sub" | "strings_Contains cs sub" by auto
    then show "\<exists>a b. c # cs = a @ sub @ b"
    proof cases
      case 1
      then obtain t where "c # cs = sub @ t" by (auto simp: strings_HasPrefix_iff)
      then have "c # cs = [] @ sub @ t" by simp
      then show ?thesis by blast
    next
      case 2
      then obtain a b where "cs = a @ sub @ b" using Cons.IH by auto
      then have "c # cs = (c # a) @ sub @ b" by simp
      then show ?thesis by blast
    qed
  next
    assume "\<exists>a b. c # cs = a @ sub @ b"
    then obtain a b where ab: "c # cs = a @ sub @ b" by blast
    show "strings_Contains (c # cs) sub"
    proof (cases a)
      case Nil
      then have "strings_HasPrefix (c # cs) sub" using ab by (auto simp: strings_HasPrefix_iff)
      then show ?thesis by simp
    next
      case (Cons x a')
      then have "cs = a' @ sub @ b" using ab by simp
      then have "strings_Contains cs sub" using Cons.IH by blast
      then show ?thesis by simp
    qed
  qed
qed

lemma mavenCoordinatePattern_iff: "mavenCoordinatePattern s = coordinate_grammar s"
  by (cases s) (auto simp: coordinate_grammar_def alphanumeric_def coord_char_def list_all_iff)

lemma profilePattern_iff: "profilePattern s = profile_grammar s"
  by (cases s) (auto simp: profile_grammar_def alphanumeric_def profile_char_def list_all_iff)

lemma hostile_has_bad_char:
  assumes "hostile s"
  shows "\<exists>c \<in> set s. \<not> coord_char c"
proof -
  consider "CHR '';'' \<in> set s" | "strings_Contains s ''$(''" | "CHR 96 \<in> set s"
    | "\<exists>c \<in> set s. whitespace c \<or> non_ascii c"
    using assms by (auto simp: hostile_def)
  then show ?thesis
  proof cases
    case 1
    moreover have "\<not> coord_char (CHR '';'')" by (simp add: coord_char_def char_defs)
    ultimately show ?thesis by blast
  next
    case 2
    then have "CHR ''$'' \<in> set s" by (auto simp: strings_Contains_iff)
    moreover have "\<not> coord_char (CHR ''$'')" by (simp add: coord_char_def char_defs)
    ultimately show ?thesis by blast
  next
    case 3
    moreover have "\<not> coord_char (CHR 96)" by (simp add: coord_char_def char_defs)
    ultimately show ?thesis by blast
  next
    case 4
    moreover have "\<not> coord_char c" if "whitespace c \<or> non_ascii c" for c
      using that by (auto simp: whitespace_def non_ascii_def coord_char_def char_defs)
    ultimately show ?thesis by blast
  qed
qed

section \<open>Identifier validator: the order of the rules\<close>

text \<open>
  C5. \<open>validateMavenCoordinate\<close> applies its rules in order: the empty string is rejected
  with ``<field> cannot be empty''; then a value longer than 256 (bytes) with ``too
  long''; then a value outside the grammar (first character alphanumeric, later ones
  alphanumeric, dot, dash or underscore) with ``disallowed characters''; then a value
  containing the substring \<open>..\<close> with ``cannot contain '..'\,''; a value passing all four
  checks is accepted.
\<close>

theorem validateMavenCoordinate_rules_in_order:
  "(coord = [] \<longrightarrow>
      validateMavenCoordinate coord fieldName = Some (fieldName @ '' cannot be empty''))
   \<and> (coord \<noteq> [] \<and> length coord > 256 \<longrightarrow>
      validateMavenCoordinate coord fieldName
        = Some (fieldName @ '' too long (max 256 characters)''))
   \<and> (coord \<noteq> [] \<and> length coord \<le> 256 \<and> \<not> coordinate_grammar coord \<longrightarrow>
      validateMavenCoordinate coord fieldName
        = Some (''invalid '' @ fieldName @ '': contains disallowed characters''))
   \<and> (coord \<noteq> [] \<and> length coord \<le> 256 \<and> coordinate_grammar coord
        \<and> (\<exists>a b. coord = a @ ''..'' @ b) \<longrightarrow>
      validateMavenCoordinate coord fieldName
        = Some (fieldName @ '' cannot contain '' @ [CHR 39] @ ''..'' @ [CHR 39]))
   \<and> (coord \<noteq> [] \<and> length coord \<le> 256 \<and> coordinate_grammar coord
        \<and> \<not> (\<exists>a b. coord = a @ ''..'' @ b) \<longrightarrow>
      validateMavenCoordinate coord fieldName = None)"
  unfolding validateMavenCoordinate_def mavenCoordinatePattern_iff strings_Contains_iff
  by simp

theorem validateMavenCoordinate_rules_in_order_witness:
  "validateMavenCoordinate [] ''group_id'' = Some ''group_id cannot be empty''
   \<and> validateMavenCoordinate (replicate 257 (CHR ''a'')) ''group_id''
       = Some ''group_id too long (max 256 characters)''
   \<and> validateMavenCoordinate ''com.example; rm -rf /'' ''group_id''
       = Some ''invalid group_id: contains disallowed characters''
   \<and> validateMavenCoordinate ''com..example'' ''group_id''
       = Some (''group_id cannot contain '' @ [CHR 39] @ ''..'' @ [CHR 39])
   \<and> validateMavenCoordinate ''com.example'' ''group_id'' = None"
proof -
  have ex: "\<exists>a b. ''com..example'' = a @ ''..'' @ b"
    unfolding strings_Contains_iff [symmetric] by simp
  have nd: "\<not> (\<exists>a b. ''com.example'' = a @ ''..'' @ b)"
    unfolding strings_Contains_iff [symmetric] by simp
  have g1: "\<not> coordinate_grammar ''com.example; rm -rf /''"
    by (simp add: coordinate_grammar_def char_defs)
  have g2: "coordinate_grammar ''com..example''"
    by (simp add: coordinate_grammar_def char_defs)
  have g3: "coordinate_grammar ''com.example''"
    by (simp add: coordinate_grammar_def char_defs)
  show ?thesis
    using validateMavenCoordinate_rules_in_order [of "[]" "''group_id''"]
      validateMavenCoordinate_rules_in_order [of "replicate 257 (CHR ''a'')" "''group_id''"]
      validateMavenCoordinate_rules_in_order [of "''com.example; rm -rf /''" "''group_id''"]
      validateMavenCoordinate_rules_in_order [of "''com..example''" "''group_id''"]
      validateMavenCoordinate_rules_in_order [of "''com.example''" "''group_id''"]
      g1 g2 g3 nd ex
    by simp
qed

section \<open>Hostile characters\<close>

text \<open>
  C4, as the code has it. Every string containing a semicolon, the substring \<open>$(\<close>, a
  backtick or a whitespace character is rejected by \<open>validateMavenCoordinate\<close> and by
  \<open>validateProfile\<close>, never accepted. The error is the grammar error whenever the
  string is not longer than the validator's length limit (256 for a coordinate, 128 for
  a profile); the length rule comes first, so a longer string is rejected as too long.
\<close>

theorem hostile_strings_rejected:
  assumes "hostile s"
  shows "validateMavenCoordinate s fieldName \<noteq> None
    \<and> validateProfile s \<noteq> None
    \<and> (length s \<le> 256 \<longrightarrow> validateMavenCoordinate s fieldName
          = Some (''invalid '' @ fieldName @ '': contains disallowed characters''))
    \<and> (length s \<le> 128 \<longrightarrow> validateProfile s
          = Some ''invalid profile name: must be alphanumeric with dashes or underscores'')"
proof -
  obtain c where c: "c \<in> set s" "\<not> coord_char c"
    using hostile_has_bad_char [OF assms] by blast
  then have pc: "\<not> profile_char c" by (auto simp: coord_char_def profile_char_def)
  from c have ne: "s \<noteq> []" by auto
  have m: "\<not> mavenCoordinatePattern s"
    using c by (cases s) (auto simp: coord_char_def list_all_iff)
  have p: "\<not> profilePattern s"
    using c pc by (cases s) (auto simp: coord_char_def list_all_iff)
  show ?thesis
    using ne m p by (simp add: validateMavenCoordinate_def validateProfile_def)
qed

theorem hostile_strings_rejected_witness:
  "hostile ''com.example; rm -rf /''
   \<and> validateMavenCoordinate ''com.example; rm -rf /'' ''group_id''
       = Some ''invalid group_id: contains disallowed characters''
   \<and> validateProfile ''com.example; rm -rf /''
       = Some ''invalid profile name: must be alphanumeric with dashes or underscores''"
proof -
  have h: "hostile ''com.example; rm -rf /''" by (simp add: hostile_def)
  show ?thesis using h hostile_strings_rejected [OF h, of "''group_id''"] by simp
qed

text \<open>
  The claim as stated, with the grammar error for every such string, fails on a string
  of 256 letters followed by a semicolon: both validators answer ``too long''.
\<close>

theorem hostile_long_string_counterexample:
  "hostile (replicate 256 (CHR ''a'') @ '';'')
   \<and> validateMavenCoordinate (replicate 256 (CHR ''a'') @ '';'') ''group_id''
       = Some ''group_id too long (max 256 characters)''
   \<and> validateProfile (replicate 256 (CHR ''a'') @ '';'')
       = Some ''profile name too long (max 128 characters)''"
  by (simp add: hostile_def validateMavenCoordinate_def validateProfile_def)

section \<open>Path validator: canonical forms\<close>

lemma split_on_nonempty: "split_on sep s \<noteq> []"
  by (induction s) (auto split: list.splits)

lemma split_on_append: "split_on sep (a @ sep # b) = split_on sep a @ split_on sep b"
proof (induction a)
  case Nil
  then show ?case by simp
next
  case (Cons c a)
  then show ?case
    using split_on_nonempty [of sep a] by (auto split: list.splits)
qed

lemma split_on_single: "sep \<notin> set e \<Longrightarrow> split_on sep e = [e]"
  by (induction e) auto

lemma split_on_hd: "\<exists>b. s = hd (split_on sep s) @ b"
proof (induction s)
  case Nil
  then show ?case by simp
next
  case (Cons c s)
  then show ?case using split_on_nonempty [of sep s] by (auto split: list.splits)
qed

lemma split_on_tl: "e \<in> set (tl (split_on sep s)) \<Longrightarrow> \<exists>a b. s = a @ sep # e @ b"
proof (induction s)
  case Nil
  then show ?case by simp
next
  case (Cons c s)
  show ?case
  proof (cases "c = sep")
    case True
    then have "e \<in> set (split_on sep s)" using Cons.prems by simp
    then consider "e = hd (split_on sep s)" | "e \<in> set (tl (split_on sep s))"
      using split_on_nonempty [of sep s] by (cases "split_on sep s") auto
    then show ?thesis
    proof cases
      case 1
      then obtain b where "s = e @ b" using split_on_hd [of s sep] by auto
      then have "c # s = [] @ sep # e @ b" using True by simp
      then show ?thesis by blast
    next
      case 2
      then obtain a b where "s = a @ sep # e @ b" using Cons.IH by blast
      then have "c # s = (c # a) @ sep # e @ b" by simp
      then show ?thesis by blast
    qed
  next
    case False
    then have "e \<in> set (tl (split_on sep s))"
      using Cons.prems split_on_nonempty [of sep s] by (auto split: list.splits)
    then obtain a b where "s = a @ sep # e @ b" using Cons.IH by blast
    then have "c # s = (c # a) @ sep # e @ b" by simp
    then show ?thesis by blast
  qed
qed

lemma backtrack_bounds:
  "d \<le> w0 \<Longrightarrow> d \<le> backtrack out d w0 \<and> backtrack out d w0 \<le> w0
     \<and> (backtrack out d w0 = d \<or> out ! (backtrack out d w0) = Separator)"
proof (induction out d w0 rule: backtrack.induct)
  case (1 out dotdot w)
  show ?case
  proof (cases "w > dotdot \<and> \<not> os_IsPathSeparator (out ! w)")
    case True
    then have "dotdot \<le> w - 1" by arith
    from "1.IH" [OF True this] True show ?thesis
      by (subst (1 2 3 4) backtrack.simps) auto
  next
    case False
    then show ?thesis using "1.prems"
      by (subst (1 2 3 4) backtrack.simps) (auto simp: os_IsPathSeparator_def)
  qed
qed

lemma rooted_inv_take:
  assumes "rooted_inv out" "1 \<le> w" "w < length out" "w = 1 \<or> out ! w = Separator"
  shows "rooted_inv (take w out)"
proof -
  from assms(4) show ?thesis
  proof
    assume "w = 1"
    then have "take w out = [Separator]"
      using assms(1) by (cases out) (auto simp: rooted_inv_def)
    then show ?thesis by (simp add: rooted_inv_def segments_def Separator_def)
  next
    assume sep: "out ! w = Separator"
    have "out = take w out @ Separator # drop (Suc w) out"
      using id_take_nth_drop [OF assms(3)] sep by simp
    then have "segments out = segments (take w out) @ segments (drop (Suc w) out)"
      unfolding segments_def using split_on_append [of Separator "take w out" "drop (Suc w) out"]
      by simp
    then have "''..'' \<notin> set (segments (take w out))"
      using assms(1) by (auto simp: rooted_inv_def)
    moreover have "take w out \<noteq> []" "hd (take w out) = Separator"
      using assms(1,2,3) by (cases out; auto simp: rooted_inv_def take_Suc_conv_app_nth)+
    ultimately show ?thesis by (simp add: rooted_inv_def)
  qed
qed

lemma rooted_inv_elem:
  assumes "rooted_inv out" "Separator \<notin> set e" "e \<noteq> ''..''"
  shows "rooted_inv ((if length out \<noteq> 1 then out @ [Separator] else out) @ e)"
proof (cases "length out = 1")
  case True
  then have o: "out = [Separator]" using assms(1) by (cases out) (auto simp: rooted_inv_def)
  have "segments ([] @ Separator # e) = segments [] @ segments e"
    unfolding segments_def by (rule split_on_append)
  then show ?thesis
    using assms(2,3) True o
    by (simp add: rooted_inv_def segments_def split_on_single)
next
  case False
  have "segments (out @ Separator # e) = segments out @ segments e"
    unfolding segments_def by (rule split_on_append)
  then show ?thesis
    using assms False
    by (cases out) (auto simp add: rooted_inv_def segments_def split_on_single)
qed

lemma elem_not_dotdot:
  assumes "\<not> os_IsPathSeparator c"
    and "\<not> (c = CHR ''.'' \<and> hd rest = CHR ''.'' \<and> (tl rest = [] \<or> os_IsPathSeparator (hd (tl rest))))"
  shows "c # takeWhile (\<lambda>x. \<not> os_IsPathSeparator x) rest \<noteq> ''..''"
proof
  assume eq: "c # takeWhile (\<lambda>x. \<not> os_IsPathSeparator x) rest = ''..''"
  then have c: "c = CHR ''.''" and tw: "takeWhile (\<lambda>x. \<not> os_IsPathSeparator x) rest = ''.''"
    by auto
  from tw obtain r rest' where rest: "rest = r # rest'" by (cases rest) auto
  with tw have r: "r = CHR ''.''" and tw': "takeWhile (\<lambda>x. \<not> os_IsPathSeparator x) rest' = []"
    by (auto split: if_splits)
  from tw' have "rest' = [] \<or> os_IsPathSeparator (hd rest')"
    by (cases rest') (auto split: if_splits)
  with c r rest assms(2) show False by simp
qed

lemma elem_no_sep:
  assumes "\<not> os_IsPathSeparator c"
  shows "Separator \<notin> set (c # takeWhile (\<lambda>x. \<not> os_IsPathSeparator x) rest)"
  using assms by (auto simp: os_IsPathSeparator_def dest: set_takeWhileD)

text \<open>Each branch of the loop of \<open>Clean\<close>, as an equation under its guard.\<close>

lemma clean_loop_sep:
  "os_IsPathSeparator c \<Longrightarrow> clean_loop rooted (c # rest) out dotdot = clean_loop rooted rest out dotdot"
  by auto

lemma clean_loop_dot:
  "\<not> os_IsPathSeparator c \<Longrightarrow> dot_elem c rest
     \<Longrightarrow> clean_loop rooted (c # rest) out dotdot = clean_loop rooted rest out dotdot"
  by auto

lemma clean_loop_back:
  "\<not> os_IsPathSeparator c \<Longrightarrow> \<not> dot_elem c rest \<Longrightarrow> dotdot_elem c rest \<Longrightarrow> length out > dotdot
     \<Longrightarrow> clean_loop rooted (c # rest) out dotdot
         = clean_loop rooted (tl rest) (take (backtrack out dotdot (length out - 1)) out) dotdot"
  by auto

lemma clean_loop_up:
  "\<not> os_IsPathSeparator c \<Longrightarrow> \<not> dot_elem c rest \<Longrightarrow> dotdot_elem c rest \<Longrightarrow> \<not> length out > dotdot
     \<Longrightarrow> \<not> rooted
     \<Longrightarrow> clean_loop rooted (c # rest) out dotdot
         = clean_loop rooted (tl rest)
             ((if length out > 0 then out @ [Separator] else out) @ ''..'')
             (length ((if length out > 0 then out @ [Separator] else out) @ ''..''))"
  by auto

lemma clean_loop_stay:
  "\<not> os_IsPathSeparator c \<Longrightarrow> \<not> dot_elem c rest \<Longrightarrow> dotdot_elem c rest \<Longrightarrow> \<not> length out > dotdot
     \<Longrightarrow> rooted
     \<Longrightarrow> clean_loop rooted (c # rest) out dotdot = clean_loop rooted (tl rest) out dotdot"
  by auto

lemma clean_loop_elem:
  "\<not> os_IsPathSeparator c \<Longrightarrow> \<not> dot_elem c rest \<Longrightarrow> \<not> dotdot_elem c rest
     \<Longrightarrow> clean_loop rooted (c # rest) out dotdot
         = clean_loop rooted (dropWhile (\<lambda>x. \<not> os_IsPathSeparator x) rest)
             ((if rooted \<and> length out \<noteq> 1 \<or> \<not> rooted \<and> length out \<noteq> 0
                 then out @ [Separator] else out)
              @ c # takeWhile (\<lambda>x. \<not> os_IsPathSeparator x) rest)
             dotdot"
  by auto

lemma clean_loop_rooted:
  "rooted \<Longrightarrow> dotdot = 1 \<Longrightarrow> rooted_inv out \<Longrightarrow> rooted_inv (clean_loop rooted path out dotdot)"
proof (induction rooted path out dotdot rule: clean_loop.induct)
  case (1 rooted out dotdot)
  then show ?case by simp
next
  case (2 rooted c rest out dotdot)
  note prems = "2.prems"
  show ?case
  proof (cases "os_IsPathSeparator c")
    case True
    show ?thesis
      unfolding clean_loop_sep [OF True] by (rule "2.IH"(1) [OF True prems])
  next
    case nsep: False
    show ?thesis
    proof (cases "dot_elem c rest")
      case True
      show ?thesis
        unfolding clean_loop_dot [OF nsep True] by (rule "2.IH"(2) [OF nsep True prems])
    next
      case ndot: False
      show ?thesis
      proof (cases "dotdot_elem c rest")
        case dd: True
        show ?thesis
        proof (cases "length out > dotdot")
          case True
          let ?w = "backtrack out dotdot (length out - 1)"
          have le: "dotdot \<le> length out - 1" using True by simp
          from backtrack_bounds [OF le, of out] prems(2)
          have b: "1 \<le> ?w" "?w \<le> length out - 1" "?w = 1 \<or> out ! ?w = Separator"
            by auto
          have lt: "?w < length out" using b(2) True by simp
          have "rooted_inv (take ?w out)"
            by (rule rooted_inv_take [OF prems(3) b(1) lt b(3)])
          then show ?thesis
            unfolding clean_loop_back [OF nsep ndot dd True]
            by (rule "2.IH"(3) [OF nsep ndot dd True prems(1,2)])
        next
          case False
          show ?thesis
            unfolding clean_loop_stay [OF nsep ndot dd False prems(1)]
            using "2.IH"(5) [OF nsep ndot dd False] prems by simp
        qed
      next
        case ndd: False
        let ?e = "c # takeWhile (\<lambda>x. \<not> os_IsPathSeparator x) rest"
        have "rooted_inv ((if length out \<noteq> 1 then out @ [Separator] else out) @ ?e)"
          by (rule rooted_inv_elem [OF prems(3) elem_no_sep [OF nsep] elem_not_dotdot [OF nsep ndd]])
        then have "rooted_inv ((if rooted \<and> length out \<noteq> 1 \<or> \<not> rooted \<and> length out \<noteq> 0
                 then out @ [Separator] else out) @ ?e)"
          using prems(1) by simp
        then show ?thesis
          unfolding clean_loop_elem [OF nsep ndot ndd]
          by (rule "2.IH"(6) [OF nsep ndot ndd prems(1,2)])
      qed
    qed
  qed
qed

lemma IsAbs_iff: "IsAbs p = (p \<noteq> [] \<and> hd p = Separator)"
  by (cases p) (auto simp: IsAbs_def Separator_def)

lemma clean_loop_relative:
  "\<not> rooted \<Longrightarrow> \<not> IsAbs out \<Longrightarrow> \<not> IsAbs (clean_loop rooted path out dotdot)"
proof (induction rooted path out dotdot rule: clean_loop.induct)
  case (1 rooted out dotdot)
  then show ?case by simp
next
  case (2 rooted c rest out dotdot)
  note prems = "2.prems"
  show ?case
  proof (cases "os_IsPathSeparator c")
    case True
    show ?thesis
      unfolding clean_loop_sep [OF True] by (rule "2.IH"(1) [OF True prems])
  next
    case nsep: False
    show ?thesis
    proof (cases "dot_elem c rest")
      case True
      show ?thesis
        unfolding clean_loop_dot [OF nsep True] by (rule "2.IH"(2) [OF nsep True prems])
    next
      case ndot: False
      show ?thesis
      proof (cases "dotdot_elem c rest")
        case dd: True
        show ?thesis
        proof (cases "length out > dotdot")
          case True
          have "\<not> IsAbs (take (backtrack out dotdot (length out - 1)) out)"
            using prems(2) by (cases out) (auto simp: IsAbs_iff hd_take)
          then show ?thesis
            unfolding clean_loop_back [OF nsep ndot dd True]
            by (rule "2.IH"(3) [OF nsep ndot dd True prems(1)])
        next
          case False
          have "\<not> IsAbs ((if length out > 0 then out @ [Separator] else out) @ ''..'')"
            using prems(2) by (cases out) (auto simp: IsAbs_iff Separator_def)
          then show ?thesis
            unfolding clean_loop_up [OF nsep ndot dd False prems(1)]
            by (rule "2.IH"(4) [OF nsep ndot dd False prems(1) prems(1)])
        qed
      next
        case ndd: False
        let ?e = "c # takeWhile (\<lambda>x. \<not> os_IsPathSeparator x) rest"
        have "\<not> IsAbs ((if rooted \<and> length out \<noteq> 1 \<or> \<not> rooted \<and> length out \<noteq> 0
                 then out @ [Separator] else out) @ ?e)"
          using prems nsep by (cases out) (auto simp: IsAbs_iff os_IsPathSeparator_def)
        then show ?thesis
          unfolding clean_loop_elem [OF nsep ndot ndd]
          by (rule "2.IH"(6) [OF nsep ndot ndd prems(1)])
      qed
    qed
  qed
qed

lemma Clean_abs_no_parent:
  assumes "IsAbs (Clean p)"
  shows "''..'' \<notin> set (segments (Clean p))"
proof (cases "p = []")
  case True
  then show ?thesis using assms by (simp add: Clean_def IsAbs_def)
next
  case ne: False
  show ?thesis
  proof (cases "os_IsPathSeparator (hd p)")
    case True
    have "rooted_inv [Separator]"
      by (simp add: rooted_inv_def segments_def Separator_def)
    then have inv: "rooted_inv (clean_loop True (tl p) [Separator] 1)"
      by (rule clean_loop_rooted [OF TrueI refl])
    then have "Clean p = clean_loop True (tl p) [Separator] 1"
      using ne True by (auto simp: Clean_def Let_def rooted_inv_def)
    then show ?thesis using inv by (simp add: rooted_inv_def)
  next
    case False
    have "\<not> IsAbs (clean_loop False p [] 0)"
      by (rule clean_loop_relative) (simp_all add: IsAbs_def)
    then have "\<not> IsAbs (Clean p)"
      using ne False by (auto simp: Clean_def Let_def IsAbs_def)
    then show ?thesis using assms by simp
  qed
qed

lemma between_separators_segment:
  assumes "parent_segment_between_separators p"
  shows "''..'' \<in> set (segments p)"
proof -
  obtain a b where "p = a @ ([Separator] @ ''..'' @ [Separator]) @ b"
    using assms by (auto simp: parent_segment_between_separators_def strings_Contains_iff)
  then have p: "p = a @ Separator # (''..'' @ Separator # b)" by simp
  have "segments p = segments a @ segments (''..'' @ Separator # b)"
    unfolding segments_def p by (rule split_on_append)
  also have "segments (''..'' @ Separator # b) = segments ''..'' @ segments b"
    unfolding segments_def by (rule split_on_append)
  also have "segments ''..'' = [''..'']"
    by (simp add: segments_def Separator_def)
  finally show ?thesis by simp
qed

lemmas clean_eval = Clean_def os_IsPathSeparator_def Separator_def backtrack.simps

lemma parent_segment_cases:
  assumes "''..'' \<in> set (segments p)"
  shows "strings_HasPrefix p ''..'' \<or> strings_Contains p ([Separator] @ ''..'')"
proof -
  from assms consider "''..'' = hd (segments p)" | "''..'' \<in> set (tl (segments p))"
    using split_on_nonempty [of Separator p] by (cases "segments p") (auto simp: segments_def)
  then show ?thesis
  proof cases
    case 1
    then obtain b where "p = ''..'' @ b"
      using split_on_hd [of p Separator] by (auto simp: segments_def)
    then have "strings_HasPrefix p ''..''" unfolding strings_HasPrefix_iff by blast
    then show ?thesis ..
  next
    case 2
    then obtain a b where "p = a @ Separator # ''..'' @ b"
      using split_on_tl [of "''..''" Separator p] by (auto simp: segments_def)
    then have "p = a @ ([Separator] @ ''..'') @ b" by simp
    then have "strings_Contains p ([Separator] @ ''..'')"
      unfolding strings_Contains_iff by blast
    then show ?thesis ..
  qed
qed

text \<open>
  C2. \<open>validatePath\<close> accepts the empty path. Any other path is canonicalized with
  \<open>Clean\<close>; the result is the error ``absolute paths are not allowed'' whenever the
  canonical form is absolute, and the error ``path traversal detected'' whenever the
  canonical form begins with a parent-directory segment or contains one bounded by path
  separators, indeed whenever any of its segments is \<open>..\<close>. (An absolute canonical
  form has no parent-directory segment, so the two cases never meet.) Both
  \<open>../../etc/passwd\<close> and \<open>a/../../etc/passwd\<close> are rejected.
\<close>

theorem validatePath_rejects_escapes:
  "validatePath [] = None
   \<and> (path \<noteq> [] \<and> IsAbs (Clean path) \<longrightarrow>
        validatePath path = Some ''absolute paths are not allowed'')
   \<and> (path \<noteq> [] \<and> (parent_segment_at_start (Clean path)
                      \<or> parent_segment_between_separators (Clean path)) \<longrightarrow>
        validatePath path = Some traversal_error)
   \<and> (path \<noteq> [] \<and> ''..'' \<in> set (segments (Clean path)) \<longrightarrow>
        validatePath path = Some traversal_error)"
proof -
  have seg: "validatePath path = Some traversal_error"
    if ne: "path \<noteq> []" and s: "''..'' \<in> set (segments (Clean path))"
  proof -
    have "\<not> IsAbs (Clean path)" using Clean_abs_no_parent s by blast
    then show ?thesis
      using ne parent_segment_cases [OF s]
      by (simp add: validatePath_def Let_def traversal_error_def)
  qed
  have "''..'' \<in> set (segments (Clean path))"
    if "parent_segment_at_start (Clean path) \<or> parent_segment_between_separators (Clean path)"
    using that
  proof
    assume "parent_segment_at_start (Clean path)"
    then consider "Clean path = ''..''" | b where "Clean path = ''..'' @ Separator # b"
      by (auto simp: parent_segment_at_start_def strings_HasPrefix_iff)
    then show ?thesis
    proof cases
      case 1
      then show ?thesis by (simp add: segments_def Separator_def)
    next
      case 2
      have "segments (''..'' @ Separator # b) = segments ''..'' @ segments b"
        unfolding segments_def by (rule split_on_append)
      then show ?thesis unfolding 2 by (simp add: segments_def Separator_def)
    qed
  next
    assume "parent_segment_between_separators (Clean path)"
    then show ?thesis by (rule between_separators_segment)
  qed
  then show ?thesis using seg by (auto simp: validatePath_def Let_def)
qed

theorem validatePath_rejects_escapes_witness:
  "IsAbs (Clean ''/etc/passwd'')
   \<and> validatePath ''/etc/passwd'' = Some ''absolute paths are not allowed''
   \<and> Clean ''../../etc/passwd'' = ''../../etc/passwd''
   \<and> validatePath ''../../etc/passwd'' = Some traversal_error
   \<and> Clean ''a/../../etc/passwd'' = ''../etc/passwd''
   \<and> validatePath ''a/../../etc/passwd'' = Some traversal_error"
proof -
  have c1: "Clean ''/etc/passwd'' = ''/etc/passwd''" by (simp add: clean_eval)
  have c2: "Clean ''../../etc/passwd'' = ''../../etc/passwd''" by (simp add: clean_eval)
  have c3: "Clean ''a/../../etc/passwd'' = ''../etc/passwd''" by (simp add: clean_eval)
  have a1: "IsAbs (Clean ''/etc/passwd'')" unfolding c1 by (simp add: IsAbs_def)
  have p2: "parent_segment_at_start (Clean ''../../etc/passwd'')"
    unfolding c2 by (simp add: parent_segment_at_start_def Separator_def)
  have p3: "parent_segment_at_start (Clean ''a/../../etc/passwd'')"
    unfolding c3 by (simp add: parent_segment_at_start_def Separator_def)
  show ?thesis
    using validatePath_rejects_escapes [of "''/etc/passwd''"]
      validatePath_rejects_escapes [of "''../../etc/passwd''"]
      validatePath_rejects_escapes [of "''a/../../etc/passwd''"]
      a1 p2 p3 c2 c3
    by simp
qed

text \<open>
  C10. Some relative path whose canonical form has no parent-directory segment is
  rejected with ``path traversal detected'': the check tests the canonical form for the
  prefix \<open>..\<close>, and the file name \<open>..config\<close>, which is its own canonical form and its
  only segment, has that prefix.
\<close>

theorem dotted_file_name_rejected:
  "\<not> IsAbs ''..config''
   \<and> Clean ''..config'' = ''..config''
   \<and> segments (Clean ''..config'') = [''..config'']
   \<and> validatePath ''..config'' = Some traversal_error
   \<and> (\<exists>p. \<not> IsAbs p \<and> \<not> IsAbs (Clean p) \<and> ''..'' \<notin> set (segments (Clean p))
            \<and> validatePath p = Some traversal_error)"
proof -
  have c: "Clean ''..config'' = ''..config''" by (simp add: clean_eval)
  have s: "segments ''..config'' = [''..config'']"
    by (simp add: segments_def Separator_def)
  have v: "validatePath ''..config'' = Some traversal_error"
    by (simp add: validatePath_def clean_eval IsAbs_def traversal_error_def)
  have a: "\<not> IsAbs ''..config''" by (simp add: IsAbs_def)
  have "\<not> IsAbs ''..config'' \<and> \<not> IsAbs (Clean ''..config'')
       \<and> ''..'' \<notin> set (segments (Clean ''..config''))
       \<and> validatePath ''..config'' = Some traversal_error"
    using c s v a by simp
  then have "\<exists>p. \<not> IsAbs p \<and> \<not> IsAbs (Clean p) \<and> ''..'' \<notin> set (segments (Clean p))
       \<and> validatePath p = Some traversal_error"
    by (rule exI)
  then show ?thesis using c s v a by simp
qed

section \<open>Private-address classifier: the listed ranges\<close>

lemma byte_range_and:
  fixes b :: byte
  assumes "16 \<le> b" "b \<le> 31"
  shows "b AND 0xf0 = 16"
proof -
  have "16 \<le> unat b" "unat b \<le> 31"
    using assms by (simp_all add: word_le_nat_alt)
  then have "unat b = 16 \<or> unat b = 17 \<or> unat b = 18 \<or> unat b = 19 \<or> unat b = 20
      \<or> unat b = 21 \<or> unat b = 22 \<or> unat b = 23 \<or> unat b = 24 \<or> unat b = 25 \<or> unat b = 26
      \<or> unat b = 27 \<or> unat b = 28 \<or> unat b = 29 \<or> unat b = 30 \<or> unat b = 31"
    by arith
  then have "b \<in> {16,17,18,19,20,21,22,23,24,25,26,27,28,29,30,31}"
    by (auto simp: word_unat_eq_iff)
  then show ?thesis by auto
qed

lemma To4_ipv4: "is_ipv4 ip a b c d \<Longrightarrow> To4 ip = Some [a, b, c, d]"
  by (auto simp: is_ipv4_def To4_def IPv4len_def IPv6len_def)

lemma IsPrivate_ranges:
  assumes "is_ipv4 ip a b c d"
    and "a = 10 \<or> (a = 172 \<and> 16 \<le> b \<and> b \<le> 31) \<or> (a = 192 \<and> b = 168)"
  shows "IsPrivate ip"
  using assms(2) byte_range_and [of b]
  by (auto simp: IsPrivate_def To4_ipv4 [OF assms(1)])

lemma IsLoopback_range: "is_ipv4 ip 127 b c d \<Longrightarrow> IsLoopback ip"
  by (simp add: IsLoopback_def To4_ipv4)

lemma IsLinkLocalUnicast_range: "is_ipv4 ip 169 254 c d \<Longrightarrow> IsLinkLocalUnicast ip"
  by (simp add: IsLinkLocalUnicast_def To4_ipv4)

lemma isPrivateIP_predicates:
  "IsLoopback ip \<or> IsLinkLocalUnicast ip \<or> IsLinkLocalMulticast ip \<or> IsPrivate ip \<Longrightarrow> isPrivateIP ip"
  by (simp add: isPrivateIP_def)

lemmas parse_defs = ParseCIDR_def ParseAddr_def parseIPv4_def parseIPv6_def parse_octet_def
  parse_group_def parse_groups_def dtoi_def big_def digit_val_def is_digit_def is_hex_def
  hex_val_def CIDRMask_def IPv4len_def IPv6len_def

lemma CIDRMask_loop_numeral:
  "CIDRMask_loop (numeral k) n =
     (if n \<ge> 8 then 0xff # CIDRMask_loop (pred_numeral k) (n - 8)
      else (NOT (drop_bit n (0xff :: byte))) # CIDRMask_loop (pred_numeral k) 0)"
  by (simp add: numeral_eq_Suc)

lemma CIDRMask_loop_1:
  "CIDRMask_loop 1 n = (if n \<ge> 8 then [0xff] else [NOT (drop_bit n (0xff :: byte))])"
  using CIDRMask_loop.simps(2) [of 0 n] by simp

lemma replicate_num: "replicate (numeral k) x = x # replicate (pred_numeral k) x"
  by (simp add: numeral_eq_Suc)

lemmas parse_eval = parse_defs CIDRMask_loop_numeral CIDRMask_loop_1 replicate_num

lemma ParseCIDR_literals:
  "ParseCIDR ''10.0.0.0/8'' = Some \<lparr>IP = [10, 0, 0, 0], Mask = [255, 0, 0, 0]\<rparr>"
  "ParseCIDR ''172.16.0.0/12'' = Some \<lparr>IP = [172, 16, 0, 0], Mask = [255, 240, 0, 0]\<rparr>"
  "ParseCIDR ''192.168.0.0/16'' = Some \<lparr>IP = [192, 168, 0, 0], Mask = [255, 255, 0, 0]\<rparr>"
  "ParseCIDR ''127.0.0.0/8'' = Some \<lparr>IP = [127, 0, 0, 0], Mask = [255, 0, 0, 0]\<rparr>"
  "ParseCIDR ''169.254.0.0/16'' = Some \<lparr>IP = [169, 254, 0, 0], Mask = [255, 255, 0, 0]\<rparr>"
  "ParseCIDR ''0.0.0.0/8'' = Some \<lparr>IP = [0, 0, 0, 0], Mask = [255, 0, 0, 0]\<rparr>"
  "ParseCIDR ''169.254.169.254/32''
     = Some \<lparr>IP = [169, 254, 169, 254], Mask = [255, 255, 255, 255]\<rparr>"
  "ParseCIDR ''fd00:ec2::254/128''
     = Some \<lparr>IP = [253, 0, 14, 194, 0, 0, 0, 0, 0, 0, 0, 0, 0, 0, 2, 84],
             Mask = [255, 255, 255, 255, 255, 255, 255, 255,
                     255, 255, 255, 255, 255, 255, 255, 255]\<rparr>"
  by (simp_all add: parse_eval)

lemma upt_4: "[0..<4] = [0, 1, 2, 3]"
  by (simp add: upt_rec)

lemma upt_16: "[0..<16] = [0, 1, 2, 3, 4, 5, 6, 7, 8, 9, 10, 11, 12, 13, 14, 15]"
  by (simp add: upt_rec)

lemma byte_and_255: "(x :: byte) AND 255 = x"
proof -
  have "(255 :: byte) = - 1" by simp
  then show ?thesis by (simp only: and.right_neutral)
qed

lemma To4_four: "To4 [n0, n1, n2, n3] = Some [n0, n1, n2, n3]"
  by (simp add: To4_def IPv4len_def)

lemma Contains_v4:
  assumes "is_ipv4 ip a b c d"
  shows "IPNet_Contains \<lparr>IP = [n0, n1, n2, n3], Mask = [m0, m1, m2, m3]\<rparr> ip
         = (n0 AND m0 = a AND m0 \<and> n1 AND m1 = b AND m1
            \<and> n2 AND m2 = c AND m2 \<and> n3 AND m3 = d AND m3)"
  by (simp add: IPNet_Contains_def networkNumberAndMask_def To4_ipv4 [OF assms]
        To4_four IPv4len_def IPv6len_def upt_4)

lemma Contains_v6_v4:
  assumes "is_ipv4 ip a b c d" "length n = 16" "To4 n = None" "length m = 16"
  shows "\<not> IPNet_Contains \<lparr>IP = n, Mask = m\<rparr> ip"
  using assms(2-)
  by (simp add: IPNet_Contains_def networkNumberAndMask_def To4_ipv4 [OF assms(1)]
        IPv4len_def IPv6len_def)

lemma ranges_loop_v4:
  assumes "is_ipv4 ip a b c d"
  shows "ranges_loop (privateRanges @ cloudMetadata) ip
         = (a = 10 \<or> (a = 172 \<and> b AND 0xf0 = 16) \<or> (a = 192 \<and> b = 168) \<or> a = 127
            \<or> (a = 169 \<and> b = 254) \<or> a = 0)"
proof -
  have v6: "\<not> IPNet_Contains \<lparr>IP = [253, 0, 14, 194, 0, 0, 0, 0, 0, 0, 0, 0, 0, 0, 2, 84],
             Mask = [255, 255, 255, 255, 255, 255, 255, 255,
                     255, 255, 255, 255, 255, 255, 255, 255]\<rparr> ip"
    by (rule Contains_v6_v4 [OF assms]) (simp_all add: To4_def IPv4len_def IPv6len_def)
  have "ranges_loop (privateRanges @ cloudMetadata) ip
         = (10 = a \<or> (172 = a \<and> 16 = b AND 0xf0) \<or> (192 = a \<and> 168 = b) \<or> 127 = a
            \<or> (169 = a \<and> 254 = b) \<or> 0 = a \<or> (169 = a \<and> 254 = b \<and> 169 = c \<and> 254 = d))"
    unfolding privateRanges_def cloudMetadata_def
    by (simp add: ParseCIDR_literals Contains_v4 [OF assms] v6 byte_and_255)
  then show ?thesis by auto
qed

lemma isPrivateIP_v4:
  assumes "is_ipv4 ip a b c d"
  shows "isPrivateIP ip
         = (a = 10 \<or> (a = 172 \<and> b AND 0xf0 = 16) \<or> (a = 192 \<and> b = 168) \<or> a = 127
            \<or> (a = 169 \<and> b = 254) \<or> a = 0 \<or> (a = 224 \<and> b = 0 \<and> c = 0))"
  unfolding isPrivateIP_def Let_def ranges_loop_v4 [OF assms]
  by (auto simp: IsLoopback_def IsLinkLocalUnicast_def IsLinkLocalMulticast_def IsPrivate_def
        To4_ipv4 [OF assms])

text \<open>
  C6. \<open>isPrivateIP\<close> is true for every address of 10.0.0.0/8 (10.x.x.x),
  172.16.0.0/12 (172.16.x.x to 172.31.x.x), 192.168.0.0/16, 127.0.0.0/8, 169.254.0.0/16
  and 0.0.0.0/8, in the 4-byte and in the 16-byte form of the address; for
  169.254.169.254 and for fd00:ec2::254; and for every address that \<open>IsLoopback\<close>,
  \<open>IsLinkLocalUnicast\<close>, \<open>IsLinkLocalMulticast\<close> or \<open>IsPrivate\<close> classifies. In
  particular it is true for 10.0.0.1, 172.16.0.1, 192.168.1.1, 127.0.0.1 and
  169.254.169.254, and false for 8.8.8.8.
\<close>

theorem isPrivateIP_covers_ranges:
  "(is_ipv4 ip a b c d
      \<and> (a = 10 \<or> (a = 172 \<and> 16 \<le> b \<and> b \<le> 31) \<or> (a = 192 \<and> b = 168) \<or> a = 127
          \<or> (a = 169 \<and> b = 254) \<or> a = 0) \<longrightarrow> isPrivateIP ip)
   \<and> (is_ipv4 ip 169 254 169 254 \<longrightarrow> isPrivateIP ip)
   \<and> isPrivateIP metadata_v6
   \<and> (IsLoopback ip \<or> IsLinkLocalUnicast ip \<or> IsLinkLocalMulticast ip \<or> IsPrivate ip
        \<longrightarrow> isPrivateIP ip)
   \<and> isPrivateIP [10, 0, 0, 1] \<and> isPrivateIP [172, 16, 0, 1] \<and> isPrivateIP [192, 168, 1, 1]
   \<and> isPrivateIP [127, 0, 0, 1] \<and> isPrivateIP [169, 254, 169, 254]
   \<and> \<not> isPrivateIP [8, 8, 8, 8]
   \<and> \<not> isPrivateIP [0, 0, 0, 0, 0, 0, 0, 0, 0, 0, 0xff, 0xff, 8, 8, 8, 8]"
proof -
  have r: "isPrivateIP ip"
    if "is_ipv4 ip a b c d"
      and "a = 10 \<or> (a = 172 \<and> 16 \<le> b \<and> b \<le> 31) \<or> (a = 192 \<and> b = 168) \<or> a = 127
          \<or> (a = 169 \<and> b = 254) \<or> a = 0"
    for ip a b c d
    using that(2) byte_range_and [of b] unfolding isPrivateIP_v4 [OF that(1)] by blast
  have v4: "is_ipv4 [a, b, c, d] a b c d" for a b c d
    by (simp add: is_ipv4_def)
  have m: "isPrivateIP ip" if "is_ipv4 ip 169 254 169 254" for ip
    by (rule r [OF that]) simp
  have v6: "isPrivateIP metadata_v6"
    by (rule isPrivateIP_predicates)
       (simp add: IsPrivate_def To4_def metadata_v6_def IPv4len_def IPv6len_def)
  have p: "isPrivateIP ip"
    if "IsLoopback ip \<or> IsLinkLocalUnicast ip \<or> IsLinkLocalMulticast ip \<or> IsPrivate ip"
    using that by (rule isPrivateIP_predicates)
  have e1: "isPrivateIP [10, 0, 0, 1]" by (rule r [OF v4]) simp
  have e2: "isPrivateIP [172, 16, 0, 1]" by (rule r [OF v4]) simp
  have e3: "isPrivateIP [192, 168, 1, 1]" by (rule r [OF v4]) simp
  have e4: "isPrivateIP [127, 0, 0, 1]" by (rule r [OF v4]) simp
  have e5: "isPrivateIP [169, 254, 169, 254]" by (rule r [OF v4]) simp
  have e6: "\<not> isPrivateIP [8, 8, 8, 8]"
    unfolding isPrivateIP_v4 [OF v4] by simp
  have m8: "is_ipv4 [0, 0, 0, 0, 0, 0, 0, 0, 0, 0, 0xff, 0xff, 8, 8, 8, 8] 8 8 8 8"
    by (simp add: is_ipv4_def)
  have e7: "\<not> isPrivateIP [0, 0, 0, 0, 0, 0, 0, 0, 0, 0, 0xff, 0xff, 8, 8, 8, 8]"
    unfolding isPrivateIP_v4 [OF m8] by simp
  show ?thesis
    using r [of ip a b c d] m [of ip] v6 p e1 e2 e3 e4 e5 e6 e7 by blast
qed

text \<open>
  The theorem at 172.31.255.255, at the 16-byte form of 169.254.169.254 and at the
  link-local multicast address 224.0.0.251.
\<close>

theorem isPrivateIP_covers_ranges_witness:
  "is_ipv4 [172, 31, 255, 255] 172 31 255 255 \<and> isPrivateIP [172, 31, 255, 255]
   \<and> is_ipv4 [0, 0, 0, 0, 0, 0, 0, 0, 0, 0, 0xff, 0xff, 169, 254, 169, 254] 169 254 169 254
   \<and> isPrivateIP [0, 0, 0, 0, 0, 0, 0, 0, 0, 0, 0xff, 0xff, 169, 254, 169, 254]
   \<and> IsLinkLocalMulticast [224, 0, 0, 251] \<and> isPrivateIP [224, 0, 0, 251]"
proof -
  have a: "is_ipv4 [172, 31, 255, 255] 172 31 255 255" by (simp add: is_ipv4_def)
  have b: "is_ipv4 [0, 0, 0, 0, 0, 0, 0, 0, 0, 0, 0xff, 0xff, 169, 254, 169, 254] 169 254 169 254"
    by (simp add: is_ipv4_def)
  have c: "IsLinkLocalMulticast [224, 0, 0, 251]"
    by (simp add: IsLinkLocalMulticast_def To4_four)
  have r: "(16 :: byte) \<le> 31" by simp
  show ?thesis
    using a b c r
      isPrivateIP_covers_ranges [of "[172, 31, 255, 255]" 172 31 255 255]
      isPrivateIP_covers_ranges
        [of "[0, 0, 0, 0, 0, 0, 0, 0, 0, 0, 0xff, 0xff, 169, 254, 169, 254]" 169 254 169 254]
      isPrivateIP_covers_ranges [of "[224, 0, 0, 251]" 224 0 0 251]
    by simp
qed

section \<open>Repository URL guard: the cases\<close>

lemma ips_loop_iff:
  "ips_loop ips = (if \<exists>ip \<in> set ips. isPrivateIP ip then Some private_error else None)"
  by (induction ips) (auto simp: private_error_def)

text \<open>
  C1. \<open>validateRepositoryURL\<close> accepts the empty URL. For a non-empty URL that parses:
  if the host is exactly \<open>localhost\<close>, \<open>127.0.0.1\<close> or \<open>::1\<close> the URL is accepted,
  whatever the scheme and without resolving the host; if the scheme is not \<open>https\<close> and
  the host is none of the three, the result is the error that mentions HTTPS;
  otherwise the host is resolved, and the result is the error that mentions private
  networks iff some resolved address is classified private by \<open>isPrivateIP\<close>, and a
  resolution error if the lookup fails.
\<close>

theorem validateRepositoryURL_cases:
  "validateRepositoryURL pf [] = None
   \<and> (rawURL \<noteq> [] \<and> url_Parse pf rawURL = Inr u \<and> isLocalhost (Hostname u) \<longrightarrow>
        validateRepositoryURL pf rawURL = None)
   \<and> (rawURL \<noteq> [] \<and> url_Parse pf rawURL = Inr u \<and> Scheme u \<noteq> ''https''
        \<and> \<not> isLocalhost (Hostname u) \<longrightarrow>
        validateRepositoryURL pf rawURL = Some (https_error (Scheme u))
        \<and> strings_Contains (https_error (Scheme u)) ''HTTPS'')
   \<and> (rawURL \<noteq> [] \<and> url_Parse pf rawURL = Inr u \<and> Scheme u = ''https''
        \<and> \<not> isLocalhost (Hostname u) \<and> net_LookupIP pf (Hostname u) = Inr ips \<longrightarrow>
        ((\<exists>ip \<in> set ips. isPrivateIP ip) \<longrightarrow> validateRepositoryURL pf rawURL = Some private_error)
        \<and> (\<not> (\<exists>ip \<in> set ips. isPrivateIP ip) \<longrightarrow> validateRepositoryURL pf rawURL = None))
   \<and> (rawURL \<noteq> [] \<and> url_Parse pf rawURL = Inr u \<and> Scheme u = ''https''
        \<and> \<not> isLocalhost (Hostname u) \<and> net_LookupIP pf (Hostname u) = Inl e \<longrightarrow>
        validateRepositoryURL pf rawURL = Some (''failed to resolve hostname: '' @ e))
   \<and> strings_Contains private_error ''private networks''"
proof -
  have "https_error (Scheme u) = ''only '' @ ''HTTPS'' @ ('' URLs are allowed (got '' @ Scheme u @ '')'')"
    by (simp add: https_error_def)
  then have h: "strings_Contains (https_error (Scheme u)) ''HTTPS''"
    unfolding strings_Contains_iff by blast
  have p: "strings_Contains private_error ''private networks''"
    by (simp add: private_error_def)
  show ?thesis
    using h p
    by (simp add: validateRepositoryURL_def isLocalhost_def https_error_def ips_loop_iff Let_def)
qed

text \<open>
  The theorem on a platform whose parser knows five URLs and whose resolver maps one
  host to the metadata address 169.254.169.254.
\<close>

theorem validateRepositoryURL_cases_witness:
  "validateRepositoryURL example_platform [] = None
   \<and> validateRepositoryURL example_platform ''http://localhost:8081/x'' = None
   \<and> validateRepositoryURL example_platform ''http://evil.example.com''
       = Some ''only HTTPS URLs are allowed (got http)''
   \<and> validateRepositoryURL example_platform ''https://metadata.example.com''
       = Some ''URLs pointing to private networks are not allowed''
   \<and> validateRepositoryURL example_platform ''https://repo.example.com'' = None
   \<and> validateRepositoryURL example_platform ''https://nowhere.invalid''
       = Some ''failed to resolve hostname: no such host''"
proof -
  let ?pf = example_platform
  have v4: "is_ipv4 [a, b, c, d] a b c d" for a b c d by (simp add: is_ipv4_def)
  have pub: "\<not> isPrivateIP [93, 184, 216, 34]"
    unfolding isPrivateIP_v4 [OF v4] by simp
  have priv: "isPrivateIP [169, 254, 169, 254]"
    unfolding isPrivateIP_v4 [OF v4] by simp
  have 1: "url_Parse ?pf ''http://localhost:8081/x'' = Inr \<lparr>Scheme = ''http'', Hostname = ''localhost''\<rparr>"
    by (simp add: example_platform_def)
  have 2: "url_Parse ?pf ''http://evil.example.com''
             = Inr \<lparr>Scheme = ''http'', Hostname = ''evil.example.com''\<rparr>"
    by (simp add: example_platform_def)
  have 3: "url_Parse ?pf ''https://metadata.example.com''
             = Inr \<lparr>Scheme = ''https'', Hostname = ''metadata.example.com''\<rparr>"
    by (simp add: example_platform_def)
  have 4: "url_Parse ?pf ''https://repo.example.com''
             = Inr \<lparr>Scheme = ''https'', Hostname = ''repo.example.com''\<rparr>"
    by (simp add: example_platform_def)
  have 5: "url_Parse ?pf ''https://nowhere.invalid''
             = Inr \<lparr>Scheme = ''https'', Hostname = ''nowhere.invalid''\<rparr>"
    by (simp add: example_platform_def)
  have l3: "net_LookupIP ?pf ''metadata.example.com'' = Inr [[93, 184, 216, 34], [169, 254, 169, 254]]"
    by (simp add: example_platform_def)
  have l4: "net_LookupIP ?pf ''repo.example.com'' = Inr [[93, 184, 216, 34]]"
    by (simp add: example_platform_def)
  have l5: "net_LookupIP ?pf ''nowhere.invalid'' = Inl ''no such host''"
    by (simp add: example_platform_def)
  show ?thesis
    using validateRepositoryURL_cases [of ?pf "''http://localhost:8081/x''" "\<lparr>Scheme = ''http'', Hostname = ''localhost''\<rparr>"]
      validateRepositoryURL_cases [of ?pf "''http://evil.example.com''" "\<lparr>Scheme = ''http'', Hostname = ''evil.example.com''\<rparr>"]
      validateRepositoryURL_cases [of ?pf "''https://metadata.example.com''"
         "\<lparr>Scheme = ''https'', Hostname = ''metadata.example.com''\<rparr>" "[[93, 184, 216, 34], [169, 254, 169, 254]]"]
      validateRepositoryURL_cases [of ?pf "''https://repo.example.com''"
         "\<lparr>Scheme = ''https'', Hostname = ''repo.example.com''\<rparr>" "[[93, 184, 216, 34]]"]
      validateRepositoryURL_cases [of ?pf "''https://nowhere.invalid''"
         "\<lparr>Scheme = ''https'', Hostname = ''nowhere.invalid''\<rparr>" _ "''no such host''"]
      1 2 3 4 5 l3 l4 l5 pub priv
    by (simp add: isLocalhost_def https_error_def private_error_def)
qed

section \<open>Command builder: the token order\<close>

lemma profiles_loop_None:
  "(\<forall>p \<in> set ps. validateProfile p = None) \<Longrightarrow> profiles_loop ps = None"
  by (induction ps) auto

text \<open>
  C3. \<open>buildMavenCommand\<close> is a function of the configuration, with a fixed token
  order. For every configuration whose pom path (\<open>pom.xml\<close> when unset), settings path
  and profiles pass their validators, the result is \<open>deploy\<close>, then \<open>-f\<close> and the pom
  path, then \<open>-DskipTests\<close> iff \<open>SkipTests\<close> is set, then \<open>-s\<close> and the settings path
  iff it is non-empty, then \<open>-P\<close> and the comma-joined profiles iff there are any. In
  particular the configuration with pom path \<open>pom.xml\<close>, skipTests, settings \<open>s.xml\<close>
  and profiles release and sign yields
  \<open>deploy -f pom.xml -DskipTests -s s.xml -P release,sign\<close>, and the one with only the pom
  path \<open>pom.xml\<close> yields \<open>deploy -f pom.xml\<close>.
\<close>

theorem buildMavenCommand_token_order:
  "(validatePath (effective_pom cfg) = None \<and> validatePath (Settings cfg) = None
      \<and> (\<forall>p \<in> set (Profiles cfg). validateProfile p = None) \<longrightarrow>
      buildMavenCommand cfg
        = Inr ([''deploy'', ''-f'', effective_pom cfg]
               @ (if SkipTests cfg then [''-DskipTests''] else [])
               @ (if Settings cfg \<noteq> [] then [''-s'', Settings cfg] else [])
               @ (if Profiles cfg \<noteq> []
                    then [''-P'', strings_Join (Profiles cfg) '',''] else [])))
   \<and> buildMavenCommand
         (cfg\<lparr>PomPath := ''pom.xml'', SkipTests := True, Settings := ''s.xml'',
               Profiles := [''release'', ''sign'']\<rparr>)
       = Inr [''deploy'', ''-f'', ''pom.xml'', ''-DskipTests'', ''-s'', ''s.xml'', ''-P'',
              ''release,sign'']
   \<and> buildMavenCommand
         (cfg\<lparr>PomPath := ''pom.xml'', SkipTests := False, Settings := [], Profiles := []\<rparr>)
       = Inr [''deploy'', ''-f'', ''pom.xml'']"
proof -
  have g: "buildMavenCommand cfg
        = Inr ([''deploy'', ''-f'', effective_pom cfg]
               @ (if SkipTests cfg then [''-DskipTests''] else [])
               @ (if Settings cfg \<noteq> [] then [''-s'', Settings cfg] else [])
               @ (if Profiles cfg \<noteq> []
                    then [''-P'', strings_Join (Profiles cfg) '',''] else []))"
    if "validatePath (effective_pom cfg) = None" "validatePath (Settings cfg) = None"
      "\<forall>p \<in> set (Profiles cfg). validateProfile p = None" for cfg
    using that profiles_loop_None [OF that(3)]
    by (simp add: buildMavenCommand_def add_profiles_def effective_pom_def Let_def)
  have pom: "validatePath ''pom.xml'' = None"
    by (simp add: validatePath_def clean_eval IsAbs_def)
  have s: "validatePath ''s.xml'' = None"
    by (simp add: validatePath_def clean_eval IsAbs_def)
  have e: "validatePath [] = None" by (simp add: validatePath_def)
  have p: "validateProfile ''release'' = None" "validateProfile ''sign'' = None"
    by (simp_all add: validateProfile_def profile_char_def char_defs)
  have 1: "buildMavenCommand
         (cfg\<lparr>PomPath := ''pom.xml'', SkipTests := True, Settings := ''s.xml'',
               Profiles := [''release'', ''sign'']\<rparr>)
       = Inr [''deploy'', ''-f'', ''pom.xml'', ''-DskipTests'', ''-s'', ''s.xml'', ''-P'',
              ''release,sign'']"
    using pom s p
    by (simp add: buildMavenCommand_def add_profiles_def Let_def)
  have 2: "buildMavenCommand
         (cfg\<lparr>PomPath := ''pom.xml'', SkipTests := False, Settings := [], Profiles := []\<rparr>)
       = Inr [''deploy'', ''-f'', ''pom.xml'']"
    using pom e
    by (simp add: buildMavenCommand_def add_profiles_def Let_def)
  show ?thesis using g [of cfg] 1 2 by blast
qed

text \<open>
  The theorem at a configuration with the pom path unset and the single profile
  \<open>ossrh\<close>.
\<close>

theorem buildMavenCommand_token_order_witness:
  "validatePath (effective_pom (example_config\<lparr>PomPath := [], Profiles := [''ossrh'']\<rparr>)) = None
   \<and> validatePath (Settings (example_config\<lparr>PomPath := [], Profiles := [''ossrh'']\<rparr>)) = None
   \<and> validateProfile ''ossrh'' = None
   \<and> buildMavenCommand (example_config\<lparr>PomPath := [], Profiles := [''ossrh'']\<rparr>)
       = Inr [''deploy'', ''-f'', ''pom.xml'', ''-P'', ''ossrh'']"
proof -
  let ?cfg = "example_config\<lparr>PomPath := [], Profiles := [''ossrh'']\<rparr>"
  have a: "validatePath (effective_pom ?cfg) = None"
    by (simp add: effective_pom_def example_config_def validatePath_def clean_eval IsAbs_def)
  have b: "validatePath (Settings ?cfg) = None"
    by (simp add: example_config_def validatePath_def)
  have c: "validateProfile ''ossrh'' = None"
    by (simp add: validateProfile_def profile_char_def char_defs)
  then have d: "\<forall>p \<in> set (Profiles ?cfg). validateProfile p = None"
    by (simp add: example_config_def)
  have "buildMavenCommand ?cfg = Inr [''deploy'', ''-f'', ''pom.xml'', ''-P'', ''ossrh'']"
    using buildMavenCommand_token_order [of ?cfg] a b d
    by (simp add: example_config_def effective_pom_def)
  then show ?thesis using a b c by simp
qed

section \<open>Deploy orchestrator: process runs and responses\<close>

lemma deploy_rejected:
  "\<not> passes_validation pf cfg \<Longrightarrow>
     snd (deploy pf ex cfg rc dryRun log) = log \<and> \<not> Success (fst (deploy pf ex cfg rc dryRun log))"
  by (auto simp: passes_validation_def deploy_def failure_def split: option.splits sum.splits)

lemma deploy_dry_run:
  "passes_validation pf cfg \<Longrightarrow> buildMavenCommand cfg = Inr args \<Longrightarrow>
     deploy pf ex cfg rc True log
       = (\<lparr>Success = True, Message = ''Would deploy Maven artifact'', Error = [],
           Outputs = [''group_id'' \<mapsto> AnyString (GroupID cfg),
                      ''artifact_id'' \<mapsto> AnyString (ArtifactID cfg),
                      ''version'' \<mapsto> AnyString (Version rc),
                      ''pom_path'' \<mapsto> AnyString (PomPath cfg),
                      ''command'' \<mapsto> AnyString (''mvn '' @ strings_Join args '' ''),
                      ''skip_tests'' \<mapsto> AnyBool (SkipTests cfg),
                      ''profiles'' \<mapsto> AnyStrings (Profiles cfg)]\<rparr>, log)"
  by (simp add: passes_validation_def deploy_def)

lemma deploy_run:
  "passes_validation pf cfg \<Longrightarrow> buildMavenCommand cfg = Inr args \<Longrightarrow>
     deploy pf ex cfg rc False log
       = (case ex ''mvn'' args of
            (output, Some err) \<Rightarrow>
              (failure (''Maven deploy failed: '' @ err @ [CHR 10] @ ''Output: '' @ output),
               log @ [(''mvn'', args)])
          | (output, None) \<Rightarrow>
              (\<lparr>Success = True,
                Message = ''Deployed Maven artifact '' @ GroupID cfg @ '':''
                          @ ArtifactID cfg @ '':'' @ Version rc,
                Error = [],
                Outputs = [''group_id'' \<mapsto> AnyString (GroupID cfg),
                           ''artifact_id'' \<mapsto> AnyString (ArtifactID cfg),
                           ''version'' \<mapsto> AnyString (Version rc)]\<rparr>,
               log @ [(''mvn'', args)]))"
  by (simp add: passes_validation_def deploy_def executor_Run_def split: prod.splits option.splits)

lemma hostile_group_id:
  "validateMavenCoordinate ''com.example; rm -rf /'' ''group_id''
     = Some ''invalid group_id: contains disallowed characters''"
  by (simp add: validateMavenCoordinate_def coord_char_def char_defs)

lemma profiles_loop_None_iff:
  "(profiles_loop ps = None) = list_all (\<lambda>p. validateProfile p = None) ps"
  by (induction ps) (auto split: option.splits)

lemma add_profiles_Inr_iff:
  "(\<exists>r. add_profiles cfg args = Inr r) = list_all (\<lambda>p. validateProfile p = None) (Profiles cfg)"
proof (cases "Profiles cfg = []")
  case True
  then show ?thesis by (simp add: add_profiles_def)
next
  case False
  show ?thesis
  proof (cases "profiles_loop (Profiles cfg)")
    case None
    then show ?thesis
      using False profiles_loop_None_iff [of "Profiles cfg"] by (simp add: add_profiles_def)
  next
    case (Some e)
    then show ?thesis
      using False profiles_loop_None_iff [of "Profiles cfg"] by (simp add: add_profiles_def)
  qed
qed

lemma buildMavenCommand_Inr_iff:
  "(\<exists>args. buildMavenCommand cfg = Inr args)
     = (validatePath (effective_pom cfg) = None \<and> validatePath (Settings cfg) = None
        \<and> list_all (\<lambda>p. validateProfile p = None) (Profiles cfg))"
proof (cases "validatePath (effective_pom cfg)")
  case (Some e)
  then show ?thesis by (simp add: buildMavenCommand_def effective_pom_def Let_def)
next
  case pom: None
  show ?thesis
  proof (cases "Settings cfg = []")
    case True
    then have "validatePath (Settings cfg) = None" by (simp add: validatePath_def)
    then show ?thesis
      using pom True add_profiles_Inr_iff [of cfg]
      by (simp add: buildMavenCommand_def effective_pom_def Let_def)
  next
    case ne: False
    show ?thesis
    proof (cases "validatePath (Settings cfg)")
      case None
      then show ?thesis
        using pom ne add_profiles_Inr_iff [of cfg]
        by (simp add: buildMavenCommand_def effective_pom_def Let_def)
    next
      case (Some e)
      then show ?thesis
        using pom ne by (simp add: buildMavenCommand_def effective_pom_def Let_def)
    qed
  qed
qed

lemma passes_validation_iff: "passes_validation pf cfg = all_validators_pass pf cfg"
  using buildMavenCommand_Inr_iff [of cfg]
  by (cases "buildMavenCommand cfg") (auto simp: passes_validation_def all_validators_pass_def)


lemma buildMavenCommand_tokens:
  assumes "validatePath (effective_pom cfg) = None" "validatePath (Settings cfg) = None"
    "list_all (\<lambda>p. validateProfile p = None) (Profiles cfg)"
  shows "buildMavenCommand cfg
        = Inr ([''deploy'', ''-f'', effective_pom cfg]
               @ (if SkipTests cfg then [''-DskipTests''] else [])
               @ (if Settings cfg \<noteq> [] then [''-s'', Settings cfg] else [])
               @ (if Profiles cfg \<noteq> []
                    then [''-P'', strings_Join (Profiles cfg) '',''] else []))"
  using assms profiles_loop_None_iff [of "Profiles cfg"]
  by (simp add: buildMavenCommand_def add_profiles_def effective_pom_def Let_def)

text \<open>
  C7. The executor is never run when any validation fails: a failing
  \<open>validateMavenCoordinate\<close> on the group id or the artifact id, a failing
  \<open>validateRepositoryURL\<close>, a failing \<open>validatePath\<close> on the pom path (\<open>pom.xml\<close> when
  unset) or on the settings path, or a failing \<open>validateProfile\<close> on some profile each
  leave the log of runs unchanged and give \<open>Success = False\<close>. It is never run on a dry
  run either. On a deploy that is not a dry run and whose configuration passes all six
  validators it is run exactly once, with the command name \<open>mvn\<close> and the arguments
  \<open>buildMavenCommand\<close> returns, which are the tokens listed: the log grows by that one
  entry. \<open>Execute\<close> runs nothing for another hook and is \<open>deploy\<close> on the parsed
  configuration for the post-publish hook; with the group id \<open>com.example; rm -rf /\<close>
  it returns \<open>Success = False\<close>, the error ``invalid group_id: contains disallowed
  characters'', and runs no process.
\<close>

theorem process_run_only_after_validation:
  "(validateMavenCoordinate (GroupID cfg) ''group_id'' \<noteq> None
      \<or> validateMavenCoordinate (ArtifactID cfg) ''artifact_id'' \<noteq> None
      \<or> validateRepositoryURL pf (Repository cfg) \<noteq> None
      \<or> validatePath (effective_pom cfg) \<noteq> None
      \<or> validatePath (Settings cfg) \<noteq> None
      \<or> (\<exists>p \<in> set (Profiles cfg). validateProfile p \<noteq> None) \<longrightarrow>
      snd (deploy pf ex cfg rc dryRun log) = log
      \<and> \<not> Success (fst (deploy pf ex cfg rc dryRun log)))
   \<and> (dryRun \<longrightarrow> snd (deploy pf ex cfg rc dryRun log) = log)
   \<and> (validateMavenCoordinate (GroupID cfg) ''group_id'' = None
        \<and> validateMavenCoordinate (ArtifactID cfg) ''artifact_id'' = None
        \<and> validateRepositoryURL pf (Repository cfg) = None
        \<and> validatePath (effective_pom cfg) = None
        \<and> validatePath (Settings cfg) = None
        \<and> (\<forall>p \<in> set (Profiles cfg). validateProfile p = None)
        \<and> \<not> dryRun \<longrightarrow>
        buildMavenCommand cfg
          = Inr ([''deploy'', ''-f'', effective_pom cfg]
                 @ (if SkipTests cfg then [''-DskipTests''] else [])
                 @ (if Settings cfg \<noteq> [] then [''-s'', Settings cfg] else [])
                 @ (if Profiles cfg \<noteq> []
                      then [''-P'', strings_Join (Profiles cfg) '',''] else []))
        \<and> snd (deploy pf ex cfg rc dryRun log)
            = log @ [(''mvn'',
                      [''deploy'', ''-f'', effective_pom cfg]
                      @ (if SkipTests cfg then [''-DskipTests''] else [])
                      @ (if Settings cfg \<noteq> [] then [''-s'', Settings cfg] else [])
                      @ (if Profiles cfg \<noteq> []
                           then [''-P'', strings_Join (Profiles cfg) '',''] else []))])
   \<and> passes_validation pf cfg = all_validators_pass pf cfg
   \<and> (\<not> passes_validation pf cfg \<or> dryRun \<longrightarrow> snd (deploy pf ex cfg rc dryRun log) = log)
   \<and> (passes_validation pf cfg \<and> \<not> dryRun \<and> buildMavenCommand cfg = Inr args \<longrightarrow>
        snd (deploy pf ex cfg rc dryRun log) = log @ [(''mvn'', args)])
   \<and> (Hook req \<noteq> HookPostPublish \<longrightarrow> snd (Execute pf ex req log) = log)
   \<and> (Hook req = HookPostPublish \<longrightarrow>
        Execute pf ex req log
          = deploy pf ex (parseConfig pf (Config req)) (Context req) (DryRun req) log)
   \<and> (Hook req = HookPostPublish
        \<and> Config req ''group_id'' = Some (AnyString ''com.example; rm -rf /'') \<longrightarrow>
        Success (fst (Execute pf ex req log)) = False
        \<and> Error (fst (Execute pf ex req log)) = ''invalid group_id: contains disallowed characters''
        \<and> snd (Execute pf ex req log) = log)"
proof -
  let ?tokens = "[''deploy'', ''-f'', effective_pom cfg]
                 @ (if SkipTests cfg then [''-DskipTests''] else [])
                 @ (if Settings cfg \<noteq> [] then [''-s'', Settings cfg] else [])
                 @ (if Profiles cfg \<noteq> []
                      then [''-P'', strings_Join (Profiles cfg) '',''] else [])"
  have n1: "snd (deploy pf ex cfg rc dryRun log) = log
      \<and> \<not> Success (fst (deploy pf ex cfg rc dryRun log))"
    if "validateMavenCoordinate (GroupID cfg) ''group_id'' \<noteq> None
      \<or> validateMavenCoordinate (ArtifactID cfg) ''artifact_id'' \<noteq> None
      \<or> validateRepositoryURL pf (Repository cfg) \<noteq> None
      \<or> validatePath (effective_pom cfg) \<noteq> None
      \<or> validatePath (Settings cfg) \<noteq> None
      \<or> (\<exists>p \<in> set (Profiles cfg). validateProfile p \<noteq> None)"
  proof -
    have "\<not> all_validators_pass pf cfg"
      using that by (auto simp: all_validators_pass_def list_all_iff)
    then have "\<not> passes_validation pf cfg" by (simp add: passes_validation_iff)
    then show ?thesis by (rule deploy_rejected)
  qed
  have a: "snd (deploy pf ex cfg rc dryRun log) = log" if "\<not> passes_validation pf cfg \<or> dryRun"
  proof (cases "passes_validation pf cfg")
    case True
    then obtain args where b: "buildMavenCommand cfg = Inr args"
      by (auto simp: passes_validation_def split: sum.splits)
    from that True have "dryRun" by simp
    then show ?thesis using deploy_dry_run [OF True b] by simp
  next
    case False
    then show ?thesis using deploy_rejected by blast
  qed
  have b: "snd (deploy pf ex cfg rc dryRun log) = log @ [(''mvn'', args)]"
    if "passes_validation pf cfg" "\<not> dryRun" "buildMavenCommand cfg = Inr args" for args
    using that deploy_run [OF that(1,3)] by (simp split: prod.splits option.splits)
  have n2: "buildMavenCommand cfg = Inr ?tokens
        \<and> snd (deploy pf ex cfg rc dryRun log) = log @ [(''mvn'', ?tokens)]"
    if "validateMavenCoordinate (GroupID cfg) ''group_id'' = None
        \<and> validateMavenCoordinate (ArtifactID cfg) ''artifact_id'' = None
        \<and> validateRepositoryURL pf (Repository cfg) = None
        \<and> validatePath (effective_pom cfg) = None
        \<and> validatePath (Settings cfg) = None
        \<and> (\<forall>p \<in> set (Profiles cfg). validateProfile p = None)
        \<and> \<not> dryRun"
  proof -
    have av: "all_validators_pass pf cfg"
      using that by (auto simp: all_validators_pass_def list_all_iff)
    then have pv: "passes_validation pf cfg" by (simp add: passes_validation_iff)
    have t: "buildMavenCommand cfg = Inr ?tokens"
      using av by (intro buildMavenCommand_tokens) (simp_all add: all_validators_pass_def)
    from that have "\<not> dryRun" by blast
    from b [OF pv this t] t show ?thesis by blast
  qed
  have c: "snd (Execute pf ex req log) = log" if "Hook req \<noteq> HookPostPublish"
    using that by (simp add: Execute_def Let_def)
  have d: "Execute pf ex req log
          = deploy pf ex (parseConfig pf (Config req)) (Context req) (DryRun req) log"
    if "Hook req = HookPostPublish"
    using that by (simp add: Execute_def Let_def)
  have e: "Success (fst (Execute pf ex req log)) = False
        \<and> Error (fst (Execute pf ex req log)) = ''invalid group_id: contains disallowed characters''
        \<and> snd (Execute pf ex req log) = log"
    if h: "Hook req = HookPostPublish"
      and g: "Config req ''group_id'' = Some (AnyString ''com.example; rm -rf /'')"
  proof -
    have "GroupID (parseConfig pf (Config req)) = ''com.example; rm -rf /''"
      using g by (simp add: parseConfig_def NewConfigParser_def GetString_def Let_def)
    then show ?thesis
      unfolding d [OF h] using hostile_group_id
      by (simp add: deploy_def failure_def)
  qed
  have dr: "snd (deploy pf ex cfg rc dryRun log) = log" if "dryRun"
    using a that by blast
  show ?thesis
    using n1 dr n2 passes_validation_iff [of pf cfg] a b [of args] c d e by blast
qed

lemma example_config_passes:
  "passes_validation example_platform example_config"
  "buildMavenCommand example_config = Inr [''deploy'', ''-f'', ''pom.xml'']"
  by (simp_all add: passes_validation_def example_config_def validateMavenCoordinate_def
        coord_char_def char_defs validateRepositoryURL_def buildMavenCommand_def
        add_profiles_def validatePath_def clean_eval IsAbs_def)

lemma example_request_config:
  "parseConfig example_platform (Config example_request) = example_config"
  by (simp add: parseConfig_def NewConfigParser_def GetString_def GetBool_def
        GetStringSlice_def example_request_def example_config_def example_platform_def)

text \<open>
  The theorem on the example request: one run of \<open>mvn deploy -f pom.xml\<close>, and one
  run with all the tokens when skipTests, a settings path and profiles are set; no run
  on a dry run, with an invalid artifact id, with the pom path or the settings path
  \<open>../../../etc/passwd\<close>, with a profile that has spaces, for another hook, or with
  the hostile group id.
\<close>

theorem process_run_only_after_validation_witness:
  "passes_validation example_platform example_config
   \<and> snd (deploy example_platform example_executor example_config \<lparr>Version = ''v1.0.0''\<rparr>
            False [])
       = [(''mvn'', [''deploy'', ''-f'', ''pom.xml''])]
   \<and> snd (deploy example_platform example_executor example_config \<lparr>Version = ''v1.0.0''\<rparr>
            True []) = []
   \<and> \<not> passes_validation example_platform (example_config\<lparr>ArtifactID := ''my app''\<rparr>)
   \<and> snd (deploy example_platform example_executor (example_config\<lparr>ArtifactID := ''my app''\<rparr>)
            \<lparr>Version = ''v1.0.0''\<rparr> False []) = []
   \<and> validatePath ''../../../etc/passwd'' \<noteq> None
   \<and> snd (deploy example_platform example_executor
              (example_config\<lparr>PomPath := ''../../../etc/passwd''\<rparr>)
              \<lparr>Version = ''v1.0.0''\<rparr> False []) = []
   \<and> snd (deploy example_platform example_executor
              (example_config\<lparr>Settings := ''../../../etc/passwd''\<rparr>)
              \<lparr>Version = ''v1.0.0''\<rparr> False []) = []
   \<and> validateProfile ''invalid profile with spaces'' \<noteq> None
   \<and> snd (deploy example_platform example_executor
              (example_config\<lparr>Profiles := [''release'', ''invalid profile with spaces'']\<rparr>)
              \<lparr>Version = ''v1.0.0''\<rparr> False []) = []
   \<and> snd (deploy example_platform example_executor
              (example_config\<lparr>SkipTests := True, Settings := ''s.xml'',
                               Profiles := [''release'', ''sign'']\<rparr>)
              \<lparr>Version = ''v1.0.0''\<rparr> False [])
       = [(''mvn'', [''deploy'', ''-f'', ''pom.xml'', ''-DskipTests'', ''-s'', ''s.xml'', ''-P'',
                     ''release,sign''])]
   \<and> snd (Execute example_platform example_executor example_request [])
       = [(''mvn'', [''deploy'', ''-f'', ''pom.xml''])]
   \<and> snd (Execute example_platform example_executor (example_request\<lparr>Hook := ''pre-publish''\<rparr>)
            []) = []
   \<and> Error (fst (Execute example_platform example_executor
                   (example_request\<lparr>Config := [''group_id'' \<mapsto> AnyString ''com.example; rm -rf /'']\<rparr>)
                   []))
       = ''invalid group_id: contains disallowed characters''
   \<and> snd (Execute example_platform example_executor
              (example_request\<lparr>Config := [''group_id'' \<mapsto> AnyString ''com.example; rm -rf /'']\<rparr>)
              []) = []"
proof -
  let ?pf = example_platform and ?ex = example_executor and ?rc = "\<lparr>Version = ''v1.0.0''\<rparr>"
  let ?bad = "example_config\<lparr>ArtifactID := ''my app''\<rparr>"
  let ?pom = "example_config\<lparr>PomPath := ''../../../etc/passwd''\<rparr>"
  let ?set = "example_config\<lparr>Settings := ''../../../etc/passwd''\<rparr>"
  let ?prof = "example_config\<lparr>Profiles := [''release'', ''invalid profile with spaces'']\<rparr>"
  let ?full = "example_config\<lparr>SkipTests := True, Settings := ''s.xml'',
                               Profiles := [''release'', ''sign'']\<rparr>"
  let ?hostile = "example_request\<lparr>Config := [''group_id'' \<mapsto> AnyString ''com.example; rm -rf /'']\<rparr>"
  note ok = example_config_passes
  have bad: "\<not> passes_validation ?pf ?bad"
    by (simp add: passes_validation_def example_config_def validateMavenCoordinate_def
          coord_char_def char_defs)
  have vp: "validatePath ''../../../etc/passwd'' \<noteq> None"
    by (simp add: validatePath_def clean_eval IsAbs_def)
  have vpr: "validateProfile ''invalid profile with spaces'' \<noteq> None"
    by (simp add: validateProfile_def profile_char_def char_defs)
  have good: "validateMavenCoordinate ''com.example'' ''group_id'' = None"
    "validateMavenCoordinate ''my-app'' ''artifact_id'' = None"
    "validateRepositoryURL ?pf [] = None"
    "validatePath ''pom.xml'' = None" "validatePath ''s.xml'' = None"
    "validateProfile ''release'' = None" "validateProfile ''sign'' = None"
    by (simp_all add: validateMavenCoordinate_def coord_char_def char_defs
          validateRepositoryURL_def validatePath_def clean_eval IsAbs_def
          validateProfile_def profile_char_def)
  have h1: "Hook example_request = HookPostPublish" "\<not> DryRun example_request"
    "Context example_request = ?rc"
    by (simp_all add: example_request_def)
  have h2: "Hook (example_request\<lparr>Hook := ''pre-publish''\<rparr>) \<noteq> HookPostPublish"
    by (simp add: HookPostPublish_def)
  have h3: "Hook ?hostile = HookPostPublish"
    "Config ?hostile ''group_id'' = Some (AnyString ''com.example; rm -rf /'')"
    by (simp_all add: example_request_def)
  have 1: "snd (deploy ?pf ?ex ?pom ?rc False []) = []"
    using process_run_only_after_validation
        [where pf = ?pf and cfg = ?pom and dryRun = False and ex = ?ex and rc = ?rc
           and log = "[]"] vp
    by (simp add: example_config_def effective_pom_def)
  have 2: "snd (deploy ?pf ?ex ?set ?rc False []) = []"
    using process_run_only_after_validation
        [where pf = ?pf and cfg = ?set and dryRun = False and ex = ?ex and rc = ?rc
           and log = "[]"] vp
    by (simp add: example_config_def effective_pom_def)
  have 3: "snd (deploy ?pf ?ex ?prof ?rc False []) = []"
    using process_run_only_after_validation
        [where pf = ?pf and cfg = ?prof and dryRun = False and ex = ?ex and rc = ?rc
           and log = "[]"] vpr
    by (simp add: example_config_def effective_pom_def)
  have 4: "snd (deploy ?pf ?ex ?full ?rc False [])
       = [(''mvn'', [''deploy'', ''-f'', ''pom.xml'', ''-DskipTests'', ''-s'', ''s.xml'', ''-P'',
                     ''release,sign''])]"
    using process_run_only_after_validation
        [where pf = ?pf and cfg = ?full and dryRun = False and ex = ?ex and rc = ?rc
           and log = "[]"] good
    by (simp add: example_config_def effective_pom_def)
  have 5: "passes_validation ?pf example_config
   \<and> snd (deploy ?pf ?ex example_config ?rc False []) = [(''mvn'', [''deploy'', ''-f'', ''pom.xml''])]
   \<and> snd (deploy ?pf ?ex example_config ?rc True []) = []
   \<and> \<not> passes_validation ?pf ?bad
   \<and> snd (deploy ?pf ?ex ?bad ?rc False []) = []
   \<and> snd (Execute ?pf ?ex example_request []) = [(''mvn'', [''deploy'', ''-f'', ''pom.xml''])]
   \<and> snd (Execute ?pf ?ex (example_request\<lparr>Hook := ''pre-publish''\<rparr>) []) = []
   \<and> Error (fst (Execute ?pf ?ex ?hostile []))
       = ''invalid group_id: contains disallowed characters''
   \<and> snd (Execute ?pf ?ex ?hostile []) = []"
    using ok bad h1 h2 h3 example_request_config
      process_run_only_after_validation
        [where pf = ?pf and cfg = example_config and dryRun = False and ex = ?ex and rc = ?rc
           and log = "[]" and args = "[''deploy'', ''-f'', ''pom.xml'']" and req = example_request]
      process_run_only_after_validation
        [where pf = ?pf and cfg = example_config and dryRun = True and ex = ?ex and rc = ?rc
           and log = "[]"]
      process_run_only_after_validation
        [where pf = ?pf and cfg = ?bad and dryRun = False and ex = ?ex and rc = ?rc
           and log = "[]"]
      process_run_only_after_validation
        [where pf = ?pf and ex = ?ex and log = "[]"
           and req = "example_request\<lparr>Hook := ''pre-publish''\<rparr>"]
      process_run_only_after_validation
        [where pf = ?pf and ex = ?ex and log = "[]" and req = ?hostile]
    by simp
  show ?thesis using 1 2 3 4 5 vp vpr by simp
qed

text \<open>
  C9. For the post-publish hook \<open>Execute\<close> is \<open>deploy\<close> on the parsed configuration.
  A dry-run deploy that passes validation returns \<open>Success = True\<close> with outputs
  \<open>group_id\<close>, \<open>artifact_id\<close>, \<open>version\<close>, \<open>pom_path\<close>, \<open>command\<close> (the preview
  \<open>mvn\<close> followed by the arguments joined by spaces), \<open>skip_tests\<close> and \<open>profiles\<close>. A
  real deploy whose process succeeds returns \<open>Success = True\<close>, the message ``Deployed
  Maven artifact <groupId>:<artifactId>:<version>'' and outputs \<open>group_id\<close>,
  \<open>artifact_id\<close> and \<open>version\<close>. For any other hook \<open>Execute\<close> returns
  \<open>Success = True\<close> with the message ``Hook <name> not handled'', no outputs, and leaves
  the log of runs unchanged.
\<close>

theorem Execute_responses:
  "(Hook req = HookPostPublish \<longrightarrow>
      Execute pf ex req log
        = deploy pf ex (parseConfig pf (Config req)) (Context req) (DryRun req) log)
   \<and> (passes_validation pf cfg \<and> buildMavenCommand cfg = Inr args \<longrightarrow>
        Success (fst (deploy pf ex cfg rc True log))
        \<and> Outputs (fst (deploy pf ex cfg rc True log)) ''group_id'' = Some (AnyString (GroupID cfg))
        \<and> Outputs (fst (deploy pf ex cfg rc True log)) ''artifact_id''
            = Some (AnyString (ArtifactID cfg))
        \<and> Outputs (fst (deploy pf ex cfg rc True log)) ''version'' = Some (AnyString (Version rc))
        \<and> Outputs (fst (deploy pf ex cfg rc True log)) ''pom_path'' = Some (AnyString (PomPath cfg))
        \<and> Outputs (fst (deploy pf ex cfg rc True log)) ''command''
            = Some (AnyString (''mvn '' @ strings_Join args '' ''))
        \<and> Outputs (fst (deploy pf ex cfg rc True log)) ''skip_tests''
            = Some (AnyBool (SkipTests cfg))
        \<and> Outputs (fst (deploy pf ex cfg rc True log)) ''profiles''
            = Some (AnyStrings (Profiles cfg)))
   \<and> (passes_validation pf cfg \<and> buildMavenCommand cfg = Inr args
        \<and> snd (ex ''mvn'' args) = None \<longrightarrow>
        Success (fst (deploy pf ex cfg rc False log))
        \<and> Message (fst (deploy pf ex cfg rc False log))
            = ''Deployed Maven artifact '' @ GroupID cfg @ '':'' @ ArtifactID cfg @ '':''
              @ Version rc
        \<and> Outputs (fst (deploy pf ex cfg rc False log)) ''group_id''
            = Some (AnyString (GroupID cfg))
        \<and> Outputs (fst (deploy pf ex cfg rc False log)) ''artifact_id''
            = Some (AnyString (ArtifactID cfg))
        \<and> Outputs (fst (deploy pf ex cfg rc False log)) ''version''
            = Some (AnyString (Version rc)))
   \<and> (Hook req \<noteq> HookPostPublish \<longrightarrow>
        Execute pf ex req log
          = (\<lparr>Success = True, Message = ''Hook '' @ Hook req @ '' not handled'', Error = [],
              Outputs = Map.empty\<rparr>, log))"
proof -
  have a: "Execute pf ex req log
        = deploy pf ex (parseConfig pf (Config req)) (Context req) (DryRun req) log"
    if "Hook req = HookPostPublish"
    using that by (simp add: Execute_def Let_def)
  have d: "Execute pf ex req log
          = (\<lparr>Success = True, Message = ''Hook '' @ Hook req @ '' not handled'', Error = [],
              Outputs = Map.empty\<rparr>, log)"
    if "Hook req \<noteq> HookPostPublish"
    using that by (simp add: Execute_def Let_def)
  show ?thesis
  proof (cases "passes_validation pf cfg \<and> buildMavenCommand cfg = Inr args")
    case True
    then have p: "passes_validation pf cfg" and b: "buildMavenCommand cfg = Inr args" by auto
    have "snd (ex ''mvn'' args) = None \<Longrightarrow>
        deploy pf ex cfg rc False log
          = (\<lparr>Success = True,
              Message = ''Deployed Maven artifact '' @ GroupID cfg @ '':''
                        @ ArtifactID cfg @ '':'' @ Version rc,
              Error = [],
              Outputs = [''group_id'' \<mapsto> AnyString (GroupID cfg),
                         ''artifact_id'' \<mapsto> AnyString (ArtifactID cfg),
                         ''version'' \<mapsto> AnyString (Version rc)]\<rparr>,
             log @ [(''mvn'', args)])"
      unfolding deploy_run [OF p b] by (cases "ex ''mvn'' args") simp
    then show ?thesis
      using a d p b unfolding deploy_dry_run [OF p b] by simp
  next
    case False
    then show ?thesis using a d by blast
  qed
qed

text \<open>
  The theorem on the example request, as a dry run, as a real run, and for the hook
  \<open>pre-publish\<close>.
\<close>

theorem Execute_responses_witness:
  "Success (fst (Execute example_platform example_executor (example_request\<lparr>DryRun := True\<rparr>) []))
   \<and> Outputs (fst (Execute example_platform example_executor
                     (example_request\<lparr>DryRun := True\<rparr>) [])) ''command''
       = Some (AnyString ''mvn deploy -f pom.xml'')
   \<and> Outputs (fst (Execute example_platform example_executor
                     (example_request\<lparr>DryRun := True\<rparr>) [])) ''version''
       = Some (AnyString ''v1.0.0'')
   \<and> Success (fst (Execute example_platform example_executor example_request []))
   \<and> Message (fst (Execute example_platform example_executor example_request []))
       = ''Deployed Maven artifact com.example:my-app:v1.0.0''
   \<and> Outputs (fst (Execute example_platform example_executor example_request [])) ''group_id''
       = Some (AnyString ''com.example'')
   \<and> Execute example_platform example_executor (example_request\<lparr>Hook := ''pre-publish''\<rparr>) []
       = (\<lparr>Success = True, Message = ''Hook pre-publish not handled'', Error = [],
           Outputs = Map.empty\<rparr>, [])"
proof -
  let ?pf = example_platform and ?ex = example_executor and ?rc = "\<lparr>Version = ''v1.0.0''\<rparr>"
  let ?dry = "example_request\<lparr>DryRun := True\<rparr>"
  let ?other = "example_request\<lparr>Hook := ''pre-publish''\<rparr>"
  note ok = example_config_passes
  have h1: "Hook example_request = HookPostPublish" "DryRun example_request = False"
    "Context example_request = ?rc"
    by (simp_all add: example_request_def)
  have h2: "Hook ?dry = HookPostPublish" "DryRun ?dry" "Context ?dry = ?rc"
    "Config ?dry = Config example_request"
    by (simp_all add: example_request_def)
  have h3: "Hook ?other \<noteq> HookPostPublish" "Hook ?other = ''pre-publish''"
    by (simp_all add: HookPostPublish_def)
  have run: "snd (?ex ''mvn'' [''deploy'', ''-f'', ''pom.xml'']) = None"
    by (simp add: example_executor_def)
  have cfg: "GroupID example_config = ''com.example''" "ArtifactID example_config = ''my-app''"
    by (simp_all add: example_config_def)
  show ?thesis
    using ok h1 h2 h3 run cfg example_request_config
      Execute_responses
        [where req = example_request and pf = ?pf and ex = ?ex and log = "[]"
           and cfg = example_config and args = "[''deploy'', ''-f'', ''pom.xml'']" and rc = ?rc]
      Execute_responses
        [where req = ?dry and pf = ?pf and ex = ?ex and log = "[]"
           and cfg = example_config and args = "[''deploy'', ''-f'', ''pom.xml'']" and rc = ?rc]
      Execute_responses [where req = ?other and pf = ?pf and ex = ?ex and log = "[]"]
    by simp
qed

section \<open>Validate: every field is checked\<close>

lemma validate_profiles_append: "validate_profiles vb ps = vb @ profiles_errors ps"
  by (induction ps arbitrary: vb)
     (auto simp: profiles_errors_def AddError_def profile_error_def split: option.splits)

lemma parseConfig_fields:
  "GroupID (parseConfig pf config) = GetString (NewConfigParser pf config) ''group_id'' [] []"
  "ArtifactID (parseConfig pf config) = GetString (NewConfigParser pf config) ''artifact_id'' [] []"
  "PomPath (parseConfig pf config) = GetString (NewConfigParser pf config) ''pom_path'' [] ''pom.xml''"
  "Repository (parseConfig pf config) = GetString (NewConfigParser pf config) ''repository'' [] []"
  "Settings (parseConfig pf config) = GetString (NewConfigParser pf config) ''settings'' [] []"
  "Profiles (parseConfig pf config) = GetStringSlice (NewConfigParser pf config) ''profiles'' []"
  by (auto simp: parseConfig_def Let_def GetString_def split: option.splits any.splits)

lemma validate_empty:
  "validateMavenCoordinate [] f \<noteq> None" "validatePath [] = None"
  "validateRepositoryURL pf [] = None"
  by (simp_all add: validateMavenCoordinate_def validatePath_def validateRepositoryURL_def)

lemma group_step:
  "(if g = [] then AddError vb f what else vb @ field_errors f (validateMavenCoordinate g f))
   = vb @ required_errors f what g"
  by (simp add: required_errors_def field_errors_def AddError_def split: option.splits)

lemma field_step:
  "(case r of Some err \<Rightarrow> AddError vb f err | None \<Rightarrow> vb) = vb @ field_errors f r"
  by (simp add: field_errors_def AddError_def split: option.splits)

lemma optional_step:
  "validate [] = None \<Longrightarrow>
   (if v \<noteq> [] then vb @ field_errors f (validate v) else vb)
   = vb @ field_errors f (validate v)"
  by (simp add: field_errors_def AddError_def split: option.splits)

lemma Validate_errors:
  "Errors (Validate pf config)
     = required_errors ''group_id'' ''Maven group ID is required'' (GroupID (parseConfig pf config))
       @ required_errors ''artifact_id'' ''Maven artifact ID is required'' (ArtifactID (parseConfig pf config))
       @ field_errors ''pom_path'' (validatePath (PomPath (parseConfig pf config)))
       @ field_errors ''repository''
           (validateRepositoryURL pf (Repository (parseConfig pf config)))
       @ field_errors ''settings'' (validatePath (Settings (parseConfig pf config)))
       @ profiles_errors (Profiles (parseConfig pf config))"
  unfolding parseConfig_fields Validate_def Let_def group_step field_step
    optional_step [of "validateRepositoryURL pf", OF validate_empty(3)]
    optional_step [of validatePath, OF validate_empty(2)]
    validate_profiles_append
  by (simp add: Build_def NewValidationBuilder_def)

lemma Validate_valid: "Valid (Validate pf config) = (Errors (Validate pf config) = [])"
  by (simp add: Validate_def Let_def Build_def)

lemma has_error_append: "has_error (xs @ ys) f = (has_error xs f \<or> has_error ys f)"
  by (simp add: has_error_def)

lemma has_error_field: "has_error (field_errors f' r) f = (f = f' \<and> r \<noteq> None)"
  by (auto simp: has_error_def field_errors_def split: option.splits)

lemma has_error_required:
  "has_error (required_errors f' what v) f = (f = f' \<and> validateMavenCoordinate v f' \<noteq> None)"
  by (auto simp: has_error_def required_errors_def field_errors_def validate_empty
           split: option.splits)

lemma has_error_profiles:
  "has_error (profiles_errors ps) f
     = (f = ''profiles'' \<and> (\<exists>p \<in> set ps. validateProfile p \<noteq> None))"
  by (induction ps)
     (auto simp: has_error_def profiles_errors_def profile_error_def split: option.splits)

lemma length_field_errors: "length (field_errors f r) = failures r"
  by (simp add: field_errors_def failures_def split: option.splits)

lemma length_required_errors:
  "length (required_errors f what v) = failures (validateMavenCoordinate v f)"
  using validate_empty(1) [of f]
  by (auto simp: required_errors_def field_errors_def failures_def split: option.splits)

lemma length_profiles_errors:
  "length (profiles_errors ps) = length (filter (\<lambda>p. validateProfile p \<noteq> None) ps)"
  by (induction ps) (auto simp: profiles_errors_def split: option.splits)

lemma profile_error_mem:
  "p \<in> set ps \<Longrightarrow> validateProfile p = Some e \<Longrightarrow> profile_error p e \<in> set (profiles_errors ps)"
  by (induction ps) (auto simp: profiles_errors_def split: option.splits)

text \<open>
  C8. \<open>Validate\<close> checks every field on its own and collects all failures. With
  \<open>cfg\<close> the parsed configuration: the response has an error for \<open>group_id\<close> iff the
  group id fails \<open>validateMavenCoordinate\<close> (an empty one is reported as required), the
  same for \<open>artifact_id\<close>; an error for \<open>pom_path\<close> iff the pom path (\<open>pom.xml\<close> when
  unset) fails \<open>validatePath\<close>; for \<open>repository\<close> iff the URL guard rejects the
  repository; for \<open>settings\<close> iff the settings path fails \<open>validatePath\<close>; and one error
  for every profile that fails \<open>validateProfile\<close>. The number of errors is the number of
  failing fields plus the number of failing profiles, and the response is valid iff
  there is no error. In particular \<open>Validate({})\<close> is invalid with exactly the two
  errors for \<open>group_id\<close> and \<open>artifact_id\<close>.
\<close>

theorem Validate_exhaustive:
  assumes "cfg = parseConfig pf config" and "errs = Errors (Validate pf config)"
  shows "has_error errs ''group_id'' = (validateMavenCoordinate (GroupID cfg) ''group_id'' \<noteq> None)
    \<and> has_error errs ''artifact_id''
        = (validateMavenCoordinate (ArtifactID cfg) ''artifact_id'' \<noteq> None)
    \<and> has_error errs ''pom_path'' = (validatePath (PomPath cfg) \<noteq> None)
    \<and> has_error errs ''repository'' = (validateRepositoryURL pf (Repository cfg) \<noteq> None)
    \<and> has_error errs ''settings'' = (validatePath (Settings cfg) \<noteq> None)
    \<and> has_error errs ''profiles'' = (\<exists>p \<in> set (Profiles cfg). validateProfile p \<noteq> None)
    \<and> (\<forall>p \<in> set (Profiles cfg). \<forall>e. validateProfile p = Some e \<longrightarrow>
          profile_error p e \<in> set errs)
    \<and> length errs
        = failures (validateMavenCoordinate (GroupID cfg) ''group_id'')
          + failures (validateMavenCoordinate (ArtifactID cfg) ''artifact_id'')
          + failures (validatePath (PomPath cfg))
          + failures (validateRepositoryURL pf (Repository cfg))
          + failures (validatePath (Settings cfg))
          + length (filter (\<lambda>p. validateProfile p \<noteq> None) (Profiles cfg))
    \<and> Valid (Validate pf config) = (errs = [])
    \<and> PomPath (parseConfig pf Map.empty) = ''pom.xml''
    \<and> Validate pf Map.empty
        = \<lparr>Valid = False,
           Errors = [\<lparr>Field = ''group_id'', Msg = ''Maven group ID is required''\<rparr>,
                     \<lparr>Field = ''artifact_id'', Msg = ''Maven artifact ID is required''\<rparr>]\<rparr>"
proof -
  note e = assms(2) [unfolded Validate_errors, folded assms(1)]
  have h: "has_error errs ''group_id'' = (validateMavenCoordinate (GroupID cfg) ''group_id'' \<noteq> None)"
    "has_error errs ''artifact_id''
        = (validateMavenCoordinate (ArtifactID cfg) ''artifact_id'' \<noteq> None)"
    "has_error errs ''pom_path'' = (validatePath (PomPath cfg) \<noteq> None)"
    "has_error errs ''repository'' = (validateRepositoryURL pf (Repository cfg) \<noteq> None)"
    "has_error errs ''settings'' = (validatePath (Settings cfg) \<noteq> None)"
    "has_error errs ''profiles'' = (\<exists>p \<in> set (Profiles cfg). validateProfile p \<noteq> None)"
    unfolding e has_error_append has_error_field has_error_required has_error_profiles
    by simp_all
  have m: "\<forall>p \<in> set (Profiles cfg). \<forall>e. validateProfile p = Some e \<longrightarrow>
          profile_error p e \<in> set errs"
    unfolding e using profile_error_mem by auto
  have l: "length errs
        = failures (validateMavenCoordinate (GroupID cfg) ''group_id'')
          + failures (validateMavenCoordinate (ArtifactID cfg) ''artifact_id'')
          + failures (validatePath (PomPath cfg))
          + failures (validateRepositoryURL pf (Repository cfg))
          + failures (validatePath (Settings cfg))
          + length (filter (\<lambda>p. validateProfile p \<noteq> None) (Profiles cfg))"
    unfolding e
    by (simp add: length_field_errors length_required_errors length_profiles_errors)
  have v: "Valid (Validate pf config) = (errs = [])"
    unfolding assms(2) by (rule Validate_valid)
  have pom: "validatePath ''pom.xml'' = None"
    by (simp add: validatePath_def clean_eval IsAbs_def)
  have c0: "parseConfig pf Map.empty
      = \<lparr>GroupID = [], ArtifactID = [], PomPath = ''pom.xml'',
         Username = GetString (NewConfigParser pf Map.empty) ''username'' ''MAVEN_USERNAME'' [],
         Password = GetString (NewConfigParser pf Map.empty) ''password'' ''MAVEN_PASSWORD'' [],
         Repository = [], SkipTests = False, Settings = [], Profiles = []\<rparr>"
    by (simp add: parseConfig_def Let_def GetString_def GetBool_def GetStringSlice_def
          NewConfigParser_def)
  have e0: "Errors (Validate pf Map.empty)
      = [\<lparr>Field = ''group_id'', Msg = ''Maven group ID is required''\<rparr>,
         \<lparr>Field = ''artifact_id'', Msg = ''Maven artifact ID is required''\<rparr>]"
    unfolding Validate_errors c0
    by (simp add: required_errors_def field_errors_def profiles_errors_def pom validate_empty)
  have v0: "Validate pf Map.empty
        = \<lparr>Valid = False,
           Errors = [\<lparr>Field = ''group_id'', Msg = ''Maven group ID is required''\<rparr>,
                     \<lparr>Field = ''artifact_id'', Msg = ''Maven artifact ID is required''\<rparr>]\<rparr>"
    using e0 Validate_valid [of pf Map.empty]
    by (cases "Validate pf Map.empty") simp
  have p0: "PomPath (parseConfig pf Map.empty) = ''pom.xml''"
    unfolding c0 by simp
  show ?thesis using h m l v p0 v0 by blast
qed

text \<open>
  The theorem on a configuration with a hostile group id, no artifact id, a pom path
  that escapes and one bad profile out of two: four errors.
\<close>

theorem Validate_exhaustive_witness:
  "has_error (Errors (Validate example_platform example_bad_config)) ''group_id''
   \<and> has_error (Errors (Validate example_platform example_bad_config)) ''artifact_id''
   \<and> has_error (Errors (Validate example_platform example_bad_config)) ''pom_path''
   \<and> \<not> has_error (Errors (Validate example_platform example_bad_config)) ''repository''
   \<and> \<not> has_error (Errors (Validate example_platform example_bad_config)) ''settings''
   \<and> has_error (Errors (Validate example_platform example_bad_config)) ''profiles''
   \<and> length (Errors (Validate example_platform example_bad_config)) = 4
   \<and> \<not> Valid (Validate example_platform example_bad_config)"
proof -
  let ?pf = example_platform
  let ?cfg = "parseConfig ?pf example_bad_config"
  let ?errs = "Errors (Validate ?pf example_bad_config)"
  have c: "?cfg = \<lparr>GroupID = ''com.example; rm -rf /'', ArtifactID = [],
      PomPath = ''../../../etc/passwd'', Username = [], Password = [], Repository = [],
      SkipTests = False, Settings = [],
      Profiles = [''release'', ''invalid profile with spaces'']\<rparr>"
    by (simp add: parseConfig_def NewConfigParser_def GetString_def GetBool_def
          GetStringSlice_def example_bad_config_def example_platform_def)
  have g: "validateMavenCoordinate ''com.example; rm -rf /'' ''group_id'' \<noteq> None"
    by (simp add: hostile_group_id)
  have a: "validateMavenCoordinate [] ''artifact_id'' \<noteq> None"
    by (rule validate_empty)
  have p: "validatePath ''../../../etc/passwd'' \<noteq> None"
    by (simp add: validatePath_def clean_eval IsAbs_def)
  have r: "validateRepositoryURL ?pf [] = None" "validatePath [] = None"
    by (rule validate_empty)+
  have pr: "validateProfile ''release'' = None"
    "validateProfile ''invalid profile with spaces'' \<noteq> None"
    by (simp_all add: validateProfile_def profile_char_def char_defs)
  have f: "failures (validateMavenCoordinate ''com.example; rm -rf /'' ''group_id'') = 1"
    "failures (validateMavenCoordinate [] ''artifact_id'') = 1"
    "failures (validatePath ''../../../etc/passwd'') = 1"
    using g a p by (auto simp: failures_def split: option.splits)
  have "length ?errs = 4"
    using Validate_exhaustive [of ?cfg ?pf example_bad_config ?errs, OF refl refl]
      g a p r pr f
    unfolding c by (simp add: failures_def)
  then have ne: "?errs \<noteq> []" by auto
  show ?thesis
    using Validate_exhaustive [of ?cfg ?pf example_bad_config ?errs, OF refl refl]
      g a p r pr f ne
    unfolding c by (simp add: failures_def)
qed

end
